theory Spec2Isabelle
  imports Main "HOL-Library.Sublist"
begin

section \<open>Python values shared by both modules\<close>

text \<open>
  The two modules exchange JSON-shaped Python values: what \<^verbatim>\<open>response.json()\<close> returns
  and what the provider payloads are built from. A dictionary is kept as the list of its
  items (the keys of a parsed dictionary are distinct) and looked up with \<open>map_of\<close>.
  Python's \<^verbatim>\<open>None\<close> is \<open>JNull\<close>. Numbers are the integral ones: the code only
  ever tests a number for truth.
\<close>

datatype json =
    JNull
  | JBool bool
  | JNum int
  | JStr string
  | JArr "json list"
  | JObj "(string \<times> json) list"

text \<open>Truth value of a Python object, as \<^verbatim>\<open>if x:\<close> tests it.\<close>

fun truthy :: "json \<Rightarrow> bool" where
  "truthy JNull = False"
| "truthy (JBool b) = b"
| "truthy (JNum n) = (n \<noteq> 0)"
| "truthy (JStr s) = (s \<noteq> [])"
| "truthy (JArr xs) = (xs \<noteq> [])"
| "truthy (JObj kvs) = (kvs \<noteq> [])"

text \<open>\<^verbatim>\<open>type(x).__name__\<close>, as it appears in an AttributeError message.\<close>

fun type_name :: "json \<Rightarrow> string" where
  "type_name JNull = ''NoneType''"
| "type_name (JBool b) = ''bool''"
| "type_name (JNum n) = ''int''"
| "type_name (JStr s) = ''str''"
| "type_name (JArr xs) = ''list''"
| "type_name (JObj kvs) = ''dict''"

text \<open>\<^verbatim>\<open>d.get(key, default)\<close> on a dictionary.\<close>

definition dict_get :: "(string \<times> json) list \<Rightarrow> string \<Rightarrow> json \<Rightarrow> json" where
  "dict_get d key dflt = (case map_of d key of None \<Rightarrow> dflt | Some v \<Rightarrow> v)"

text \<open>
  What the two \<^verbatim>\<open>except\<close> clauses of api\_server.py (lines 130 and 141) ask of an
  exception that the research graph raised: whether it is an instance of
  \<^verbatim>\<open>concurrent.futures.TimeoutError\<close> (from Python 3.11 on that is the built-in
  \<^verbatim>\<open>TimeoutError\<close>), another instance of \<^verbatim>\<open>Exception\<close>, or no instance of
  \<^verbatim>\<open>Exception\<close> at all (\<^verbatim>\<open>SystemExit\<close>, \<^verbatim>\<open>KeyboardInterrupt\<close>,
  \<^verbatim>\<open>CancelledError\<close>).
\<close>

datatype exception_class = Is_TimeoutError | Is_Exception | Is_BaseException

text \<open>
  The exceptions the modelled code can raise, each with what \<^verbatim>\<open>str(e)\<close> needs.
  \<open>WaitTimeout\<close> is the \<^verbatim>\<open>concurrent.futures.TimeoutError\<close> that \<^verbatim>\<open>future.result\<close>
  raises when its budget runs out. \<open>PipelineError\<close> is an exception raised inside the
  research graph, of any class; it carries its class and its \<^verbatim>\<open>str(e)\<close>.
\<close>

datatype py_exception =
    KeyError string
  | ValueError string
  | AttributeError string
  | WaitTimeout
  | PipelineError exception_class string

definition apostrophe :: string where
  "apostrophe = [CHR 0x27]"

fun str :: "py_exception \<Rightarrow> string" where
  "str (KeyError k) = apostrophe @ k @ apostrophe"
| "str (ValueError m) = m"
| "str (AttributeError m) = m"
| "str WaitTimeout = []"
| "str (PipelineError c m) = m"

text \<open>\<^verbatim>\<open>isinstance(e, concurrent.futures.TimeoutError)\<close>, the test of line 130.\<close>

fun is_TimeoutError :: "py_exception \<Rightarrow> bool" where
  "is_TimeoutError WaitTimeout = True"
| "is_TimeoutError (PipelineError c m) = (c = Is_TimeoutError)"
| "is_TimeoutError e = False"

text \<open>\<^verbatim>\<open>isinstance(e, Exception)\<close>, the test of line 141.\<close>

fun is_Exception :: "py_exception \<Rightarrow> bool" where
  "is_Exception (PipelineError c m) = (c \<noteq> Is_BaseException)"
| "is_Exception e = True"

section \<open>web\_operations.py: the provider client\<close>

text \<open>
  What \<^verbatim>\<open>requests.post\<close> is called with. The keyword arguments (\<^verbatim>\<open>json=\<close>,
  \<^verbatim>\<open>params=\<close>) are kept by name.
\<close>

record request =
  url :: string
  headers :: "(string \<times> string) list"
  kwargs :: "(string \<times> json) list"

text \<open>
  What the code reads of a response: \<^verbatim>\<open>response.ok\<close>, \<^verbatim>\<open>response.status_code\<close>,
  \<^verbatim>\<open>response.text\<close> and \<^verbatim>\<open>response.json()\<close>, which is \<open>None\<close> here when the body
  does not parse and the call raises. \<^verbatim>\<open>raise_for_status()\<close> raises exactly when
  \<^verbatim>\<open>ok\<close> is false.
\<close>

record response =
  ok :: bool
  status_code :: nat
  body_text :: string
  body_json :: "json option"

datatype post_result =
    Raises_RequestException string
  | Raises_Exception string
  | Responds response

text \<open>
  The surroundings of the module: the credential \<^verbatim>\<open>os.getenv\<close> finds,
  \<^verbatim>\<open>urllib.parse.quote_plus\<close>, and the network. The network answers a request from the
  whole list of requests issued so far, the last one being the request answered.
\<close>

record env =
  api_key :: "string option"
  quote_plus :: "string \<Rightarrow> string"
  post :: "request list \<Rightarrow> post_result"

text \<open>
  \<^verbatim>\<open>_make_api_request\<close> (lines 10-32). The second component is the list of requests
  issued so far. Every failure ends in \<^verbatim>\<open>return None\<close>. The \<^verbatim>\<open>print\<close> calls of the
  module write to standard output only and are left out.
\<close>

definition make_api_request ::
    "env \<Rightarrow> string \<Rightarrow> (string \<times> json) list \<Rightarrow> request list \<Rightarrow> json \<times> request list" where
  "make_api_request e u kw sent =
     (let hs = [(''Authorization'',
                   ''Bearer '' @ (case api_key e of None \<Rightarrow> ''None'' | Some k \<Rightarrow> k)),
                (''Content-Type'', ''application/json'')];
          sent' = sent @ [\<lparr>url = u, headers = hs, kwargs = kw\<rparr>]
      in case post e sent' of
           Raises_RequestException m \<Rightarrow> (JNull, sent')
         | Raises_Exception m \<Rightarrow> (JNull, sent')
         | Responds r \<Rightarrow>
             if \<not> ok r then (JNull, sent')
             else (case body_json r of
                     None \<Rightarrow> (JNull, sent')
                   | Some j \<Rightarrow> (j, sent')))"

text \<open>The dictionary \<^verbatim>\<open>extracted_data\<close> of lines 58-61.\<close>

record extracted_data =
  knowledge :: json
  organic :: json

definition zones_to_try :: "string list" where
  "zones_to_try = [''ai_agent'']"

text \<open>
  The loop of \<^verbatim>\<open>serp_search\<close> over the zones (lines 47-68). \<^verbatim>\<open>full_response.get\<close>
  exists on a dictionary only: on any other true value the attribute lookup raises
  AttributeError, outside every \<^verbatim>\<open>try\<close>.
\<close>

fun serp_zones ::
    "env \<Rightarrow> string \<Rightarrow> string \<Rightarrow> string list \<Rightarrow> request list
      \<Rightarrow> (py_exception + extracted_data option) \<times> request list" where
  "serp_zones e base_url query [] sent = (Inr None, sent)"
| "serp_zones e base_url query (zone # zones) sent =
     (let payload = JObj [(''zone'', JStr zone),
                          (''url'', JStr (base_url @ ''?q='' @ quote_plus e query @ ''&brd_json=1'')),
                          (''format'', JStr ''raw'')];
          (full_response, sent') =
             make_api_request e ''https://api.brightdata.com/request'' [(''json'', payload)] sent
      in if truthy full_response then
           (case full_response of
              JObj d \<Rightarrow>
                (Inr (Some \<lparr>knowledge = dict_get d ''knowledge'' (JObj []),
                            organic = dict_get d ''organic'' (JArr [])\<rparr>), sent')
            | _ \<Rightarrow>
                (Inl (AttributeError (apostrophe @ type_name full_response @ apostrophe
                        @ '' object has no attribute '' @ apostrophe @ ''get'' @ apostrophe)),
                 sent'))
         else serp_zones e base_url query zones sent')"

text \<open>\<^verbatim>\<open>serp_search\<close> (lines 34-68).\<close>

definition serp_search ::
    "env \<Rightarrow> string \<Rightarrow> string \<Rightarrow> request list
      \<Rightarrow> (py_exception + extracted_data option) \<times> request list" where
  "serp_search e query engine sent =
     (if engine = ''google'' then
        serp_zones e ''https://www.google.com/search'' query zones_to_try sent
      else if engine = ''bing'' then
        serp_zones e ''https://www.bing.com/search'' query zones_to_try sent
      else
        (Inl (ValueError (''Unsupported search engine. Use '' @ apostrophe @ ''google''
                @ apostrophe @ '' or '' @ apostrophe @ ''bing'' @ apostrophe @ ''.'')), sent))"

section \<open>api\_server.py: the job tracker\<close>

subsection \<open>Sessions, the clock and the pipeline\<close>

text \<open>
  One entry of \<^verbatim>\<open>search_sessions\<close> (lines 164-175). \<^verbatim>\<open>completed_at\<close> is a key of
  the dictionary only after a terminal update has written it. \<^verbatim>\<open>result\<close> is the
  optional string of \<^verbatim>\<open>StatusResponse\<close> (line 48).
\<close>

record session =
  session_id :: string
  question :: string
  status :: string
  progress :: int
  current_step :: string
  message :: string
  result :: "string option"
  output_log :: string
  created_at :: string
  updated_at :: string
  completed_at :: "string option"

text \<open>
  One reading of \<^verbatim>\<open>datetime.now()\<close>, by the two renderings the code uses:
  \<^verbatim>\<open>strftime("%H:%M:%S")\<close> and \<^verbatim>\<open>isoformat()\<close>. The clock is the sequence of the
  readings the process takes; the world counts how many were taken.
\<close>

record datetime =
  hms :: string
  isoformat :: string

text \<open>
  Modelled from the spec: the \<^verbatim>\<open>State\<close> type and the \<^verbatim>\<open>graph\<close> of main.py are not
  under src/. The fields are those of the dictionary built at lines 81-93; the final state
  "carries an optional synthesized answer", a text. The graph is an opaque function of the
  initial state: it finishes with a final state (\<open>None\<close> for a false value) or fails with an
  exception of any class, after so many seconds, or never returns. \<open>Fails\<close> carries
  the class of the exception and its \<^verbatim>\<open>str(e)\<close>.
\<close>

record state =
  messages :: "(string \<times> string) list list"
  user_question :: string
  google_results :: json
  bing_results :: json
  reddit_results :: json
  selected_reddit_urls :: json
  reddit_post_data :: json
  google_analysis :: json
  bing_analysis :: json
  reddit_analysis :: json
  final_answer :: "string option"

datatype pipeline_run =
    Finishes nat "state option"
  | Fails nat exception_class string
  | Hangs

text \<open>
  \<^verbatim>\<open>future.result(timeout=...)\<close> (line 107): it returns the value the call returned,
  raises again the exception the call raised, or raises
  \<^verbatim>\<open>concurrent.futures.TimeoutError\<close> when neither came within the budget.
\<close>

datatype future_outcome =
    Returned "state option"
  | Raised py_exception

definition future_result :: "nat \<Rightarrow> pipeline_run \<Rightarrow> future_outcome" where
  "future_result timeout r =
     (case r of
        Finishes d fs \<Rightarrow> if d \<le> timeout then Returned fs else Raised WaitTimeout
      | Fails d c m \<Rightarrow> if d \<le> timeout then Raised (PipelineError c m) else Raised WaitTimeout
      | Hangs \<Rightarrow> Raised WaitTimeout)"

text \<open>The dictionary \<^verbatim>\<open>state\<close> of lines 81-93.\<close>

definition initial_state :: "string \<Rightarrow> state" where
  "initial_state q =
     \<lparr>messages = [[(''role'', ''user''), (''content'', q)]],
      user_question = q,
      google_results = JNull,
      bing_results = JNull,
      reddit_results = JNull,
      selected_reddit_urls = JNull,
      reddit_post_data = JNull,
      google_analysis = JNull,
      bing_analysis = JNull,
      reddit_analysis = JNull,
      final_answer = None\<rparr>"

text \<open>
  The test of line 109, \<^verbatim>\<open>final_state and final_state.get("final_answer")\<close>: the answer
  when the test is true, \<open>None\<close> when it is false.
\<close>

definition answered :: "state option \<Rightarrow> string option" where
  "answered final_state =
     (case final_state of
        None \<Rightarrow> None
      | Some st \<Rightarrow>
          (case final_answer st of
             None \<Rightarrow> None
           | Some a \<Rightarrow> if a = [] then None else Some a))"

text \<open>
  The background thread of a job, by the line it executes next. Lines 97-99 run on the
  executor's worker while the thread waits at line 107; they are taken to run before the
  wait ends. \<open>L142\<close>: the clause of line 141 has taken the exception. \<open>Done\<close>: the
  function has returned. \<open>Died\<close>: an exception left it.
\<close>

datatype pc =
    L76 | L77 | L78 | L97 | L98 | L107
  | L110 string | L118
  | L120 | L128
  | L131 | L139
  | L142 py_exception | L144 py_exception
  | Done | Died py_exception

text \<open>
  The process: the dictionary \<^verbatim>\<open>search_sessions\<close>, the background threads started so far
  (by session id: the question they were given and where they stand), and the number of
  clock readings taken.
\<close>

record world =
  search_sessions :: "string \<rightharpoonup> session"
  threads :: "string \<rightharpoonup> string \<times> pc"
  ticks :: nat

subsection \<open>The log and the progress helpers\<close>

text \<open>The characters outside ASCII of the log lines, as their UTF-8 bytes.\<close>

definition rocket :: string where
  "rocket = [CHR 0xF0, CHR 0x9F, CHR 0x9A, CHR 0x80]"

definition arrows :: string where
  "arrows = [CHR 0xF0, CHR 0x9F, CHR 0x94, CHR 0x84]"

definition party :: string where
  "party = [CHR 0xF0, CHR 0x9F, CHR 0x8E, CHR 0x89]"

definition warning :: string where
  "warning = [CHR 0xE2, CHR 0x9A, CHR 0xA0, CHR 0xEF, CHR 0xB8, CHR 0x8F]"

definition alarm :: string where
  "alarm = [CHR 0xE2, CHR 0x8F, CHR 0xB0]"

definition cross :: string where
  "cross = [CHR 0xE2, CHR 0x9D, CHR 0x8C]"

text \<open>
  \<^verbatim>\<open>log_to_session\<close> (lines 54-60). Every session is created with an
  \<^verbatim>\<open>output_log\<close>, so the default of \<^verbatim>\<open>.get("output_log", "")\<close> is never taken.
\<close>

definition log_to_session :: "(nat \<Rightarrow> datetime) \<Rightarrow> string \<Rightarrow> string \<Rightarrow> world \<Rightarrow> world" where
  "log_to_session clk sid msg w =
     (case search_sessions w sid of
        None \<Rightarrow> w
      | Some s \<Rightarrow>
          (let timestamp = hms (clk (ticks w));
               log_entry = ''['' @ timestamp @ ''] '' @ msg @ [CHR 0x0A]
           in w\<lparr>search_sessions :=
                   (search_sessions w)(sid \<mapsto> s\<lparr>output_log := output_log s @ log_entry\<rparr>),
                 ticks := Suc (ticks w)\<rparr>))"

text \<open>\<^verbatim>\<open>update_session_progress\<close> (lines 62-71).\<close>

definition update_session_progress ::
    "(nat \<Rightarrow> datetime) \<Rightarrow> string \<Rightarrow> int \<Rightarrow> string \<Rightarrow> string \<Rightarrow> world \<Rightarrow> world" where
  "update_session_progress clk sid p stp msg w =
     (case search_sessions w sid of
        None \<Rightarrow> w
      | Some s \<Rightarrow>
          log_to_session clk sid (stp @ '': '' @ msg)
            (w\<lparr>search_sessions :=
                  (search_sessions w)(sid \<mapsto>
                     s\<lparr>progress := p,
                       current_step := stp,
                       message := msg,
                       updated_at := isoformat (clk (ticks w))\<rparr>),
                ticks := Suc (ticks w)\<rparr>))"

text \<open>
  The statement \<^verbatim>\<open>search_sessions[session_id].update({...})\<close> of lines 110, 120, 131
  and 144, which writes the same six keys each time. The subscript raises KeyError when
  the session is gone, before the clock is read.
\<close>

definition terminal_update ::
    "(nat \<Rightarrow> datetime) \<Rightarrow> string \<Rightarrow> string \<Rightarrow> int \<Rightarrow> string \<Rightarrow> string \<Rightarrow> string \<Rightarrow> world
      \<Rightarrow> py_exception + world" where
  "terminal_update clk sid st p stp msg res w =
     (case search_sessions w sid of
        None \<Rightarrow> Inl (KeyError sid)
      | Some s \<Rightarrow>
          Inr (w\<lparr>search_sessions :=
                   (search_sessions w)(sid \<mapsto>
                      s\<lparr>status := st,
                        progress := p,
                        current_step := stp,
                        message := msg,
                        result := Some res,
                        completed_at := Some (isoformat (clk (ticks w)))\<rparr>),
                 ticks := Suc (ticks w)\<rparr>))"

subsection \<open>The background run\<close>

definition partial_text :: string where
  "partial_text = ''Research completed with partial results. Some data sources may have failed.''"

definition timeout_text :: string where
  "timeout_text =
     ''Research process timed out. Try a simpler query or check your internet connection.''"

definition error_prefix :: string where
  "error_prefix = ''Research failed due to an error: ''"

text \<open>
  Lines 107-139: the wait for the pipeline and the classification of what came of it, in
  the world \<open>w5\<close> that line 98 left. The result is the exception that reached the outer
  \<^verbatim>\<open>except\<close>, if any, and the world at that moment.
\<close>

definition wait_and_classify ::
    "(nat \<Rightarrow> datetime) \<Rightarrow> (state \<Rightarrow> pipeline_run) \<Rightarrow> string \<Rightarrow> string \<Rightarrow> world
      \<Rightarrow> py_exception option \<times> world" where
  "wait_and_classify clk graph q sid w5 =
     (case future_result 420 (graph (initial_state q)) of
        Returned final_state \<Rightarrow>
          (case answered final_state of
             Some a \<Rightarrow>
               (case terminal_update clk sid ''completed'' 100 ''completed''
                       ''Research completed successfully!'' a w5 of
                  Inl e \<Rightarrow> (Some e, w5)
                | Inr w6 \<Rightarrow>
                    (None, log_to_session clk sid
                             (party @ '' Research completed successfully!'') w6))
           | None \<Rightarrow>
               (case terminal_update clk sid ''partial_success'' 90
                       ''completed_with_issues''
                       ''Research completed but with some issues'' partial_text w5 of
                  Inl e \<Rightarrow> (Some e, w5)
                | Inr w6 \<Rightarrow>
                    (None, log_to_session clk sid
                             (warning @ '' Research completed with some issues'') w6)))
      | Raised x \<Rightarrow>
          if is_TimeoutError x then
            (case terminal_update clk sid ''timeout'' 75 ''timeout''
                    ''Research timed out after 7 minutes'' timeout_text w5 of
               Inl e \<Rightarrow> (Some e, w5)
             | Inr w6 \<Rightarrow>
                 (None, log_to_session clk sid
                          (alarm @ '' Research timed out after 7 minutes'') w6))
          else (Some x, w5))"

text \<open>
  The \<^verbatim>\<open>try\<close> block of \<^verbatim>\<open>run_research_with_tracking\<close> (lines 76-139), run without
  interference: the exception that reached the outer \<^verbatim>\<open>except\<close>, if any, and the world
  at that moment.
\<close>

definition try_block ::
    "(nat \<Rightarrow> datetime) \<Rightarrow> (state \<Rightarrow> pipeline_run) \<Rightarrow> string \<Rightarrow> string \<Rightarrow> world
      \<Rightarrow> py_exception option \<times> world" where
  "try_block clk graph q sid w =
     (case search_sessions w sid of
        None \<Rightarrow> (Some (KeyError sid), w)
      | Some s \<Rightarrow>
          (let w1 = w\<lparr>search_sessions := (search_sessions w)(sid \<mapsto> s\<lparr>status := ''running''\<rparr>)\<rparr>;
               w2 = update_session_progress clk sid 5 ''initializing''
                      ''Starting research process...'' w1;
               w3 = log_to_session clk sid
                      (rocket @ '' Starting multi-source research for: ''
                         @ apostrophe @ q @ apostrophe) w2;
               w4 = log_to_session clk sid
                      (arrows @ '' Starting parallel research process...'') w3;
               w5 = update_session_progress clk sid 10 ''research_started''
                      ''Running parallel searches...'' w4
           in wait_and_classify clk graph q sid w5))"

text \<open>
  \<^verbatim>\<open>run_research_with_tracking\<close> (lines 73-151), run without interference: the exception
  that left the function, if any, and the final world. The clause of line 141 takes an
  \<^verbatim>\<open>Exception\<close> only; anything else leaves the function there. \<^verbatim>\<open>logger.error\<close>
  writes to the process log only.
\<close>

definition run_research_with_tracking ::
    "(nat \<Rightarrow> datetime) \<Rightarrow> (state \<Rightarrow> pipeline_run) \<Rightarrow> string \<Rightarrow> string \<Rightarrow> world
      \<Rightarrow> py_exception option \<times> world" where
  "run_research_with_tracking clk graph q sid w =
     (case try_block clk graph q sid w of
        (None, w') \<Rightarrow> (None, w')
      | (Some e, w') \<Rightarrow>
          if is_Exception e then
            (let w'' = log_to_session clk sid (cross @ '' Research failed: '' @ str e) w'
             in case terminal_update clk sid ''error'' 0 ''error''
                       (''Error occurred: '' @ str e) (error_prefix @ str e) w'' of
                  Inl e' \<Rightarrow> (Some e', w'')
                | Inr w3 \<Rightarrow> (None, w3))
          else (Some e, w'))"

text \<open>
  Where the thread stands once an exception has been raised inside the \<^verbatim>\<open>try\<close> block
  and the clause of line 130 has not taken it.
\<close>

definition outer_except :: "py_exception \<Rightarrow> pc" where
  "outer_except e = (if is_Exception e then L142 e else Died e)"

text \<open>
  The same function one statement at a time, for the runs that other threads interleave
  with. Each call of a helper and each dictionary statement is one step.
\<close>

fun exec ::
    "(nat \<Rightarrow> datetime) \<Rightarrow> (state \<Rightarrow> pipeline_run) \<Rightarrow> string \<Rightarrow> string \<Rightarrow> pc \<Rightarrow> world
      \<Rightarrow> pc \<times> world" where
  "exec clk graph q sid L76 w =
     (case search_sessions w sid of
        None \<Rightarrow> (outer_except (KeyError sid), w)
      | Some s \<Rightarrow>
          (L77, w\<lparr>search_sessions := (search_sessions w)(sid \<mapsto> s\<lparr>status := ''running''\<rparr>)\<rparr>))"
| "exec clk graph q sid L77 w =
     (L78, update_session_progress clk sid 5 ''initializing''
             ''Starting research process...'' w)"
| "exec clk graph q sid L78 w =
     (L97, log_to_session clk sid
             (rocket @ '' Starting multi-source research for: '' @ apostrophe @ q @ apostrophe) w)"
| "exec clk graph q sid L97 w =
     (L98, log_to_session clk sid (arrows @ '' Starting parallel research process...'') w)"
| "exec clk graph q sid L98 w =
     (L107, update_session_progress clk sid 10 ''research_started''
              ''Running parallel searches...'' w)"
| "exec clk graph q sid L107 w =
     (case future_result 420 (graph (initial_state q)) of
        Returned final_state \<Rightarrow>
          (case answered final_state of
             Some a \<Rightarrow> (L110 a, w)
           | None \<Rightarrow> (L120, w))
      | Raised x \<Rightarrow> if is_TimeoutError x then (L131, w) else (outer_except x, w))"
| "exec clk graph q sid (L110 a) w =
     (case terminal_update clk sid ''completed'' 100 ''completed''
             ''Research completed successfully!'' a w of
        Inl e \<Rightarrow> (outer_except e, w)
      | Inr w' \<Rightarrow> (L118, w'))"
| "exec clk graph q sid L118 w =
     (Done, log_to_session clk sid (party @ '' Research completed successfully!'') w)"
| "exec clk graph q sid L120 w =
     (case terminal_update clk sid ''partial_success'' 90 ''completed_with_issues''
             ''Research completed but with some issues'' partial_text w of
        Inl e \<Rightarrow> (outer_except e, w)
      | Inr w' \<Rightarrow> (L128, w'))"
| "exec clk graph q sid L128 w =
     (Done, log_to_session clk sid (warning @ '' Research completed with some issues'') w)"
| "exec clk graph q sid L131 w =
     (case terminal_update clk sid ''timeout'' 75 ''timeout''
             ''Research timed out after 7 minutes'' timeout_text w of
        Inl e \<Rightarrow> (outer_except e, w)
      | Inr w' \<Rightarrow> (L139, w'))"
| "exec clk graph q sid L139 w =
     (Done, log_to_session clk sid (alarm @ '' Research timed out after 7 minutes'') w)"
| "exec clk graph q sid (L142 e) w =
     (L144 e, log_to_session clk sid (cross @ '' Research failed: '' @ str e) w)"
| "exec clk graph q sid (L144 e) w =
     (case terminal_update clk sid ''error'' 0 ''error''
             (''Error occurred: '' @ str e) (error_prefix @ str e) w of
        Inl e' \<Rightarrow> (Died e', w)
      | Inr w' \<Rightarrow> (Done, w'))"
| "exec clk graph q sid Done w = (Done, w)"
| "exec clk graph q sid (Died e) w = (Died e, w)"

text \<open>So many statements of one thread in a row.\<close>

primrec exec_n ::
    "nat \<Rightarrow> (nat \<Rightarrow> datetime) \<Rightarrow> (state \<Rightarrow> pipeline_run) \<Rightarrow> string \<Rightarrow> string \<Rightarrow> pc \<times> world
      \<Rightarrow> pc \<times> world" where
  "exec_n 0 clk graph q sid c = c"
| "exec_n (Suc n) clk graph q sid c =
     exec_n n clk graph q sid (exec clk graph q sid (fst c) (snd c))"

text \<open>One statement of the thread of session \<open>sid\<close>, in the world that holds the thread.\<close>

definition thread_step ::
    "(nat \<Rightarrow> datetime) \<Rightarrow> (state \<Rightarrow> pipeline_run) \<Rightarrow> string \<Rightarrow> world \<Rightarrow> world" where
  "thread_step clk graph sid w =
     (case threads w sid of
        None \<Rightarrow> w
      | Some (q, p) \<Rightarrow>
          (let (p', w') = exec clk graph q sid p w
           in w'\<lparr>threads := (threads w')(sid \<mapsto> (q, p'))\<rparr>))"

subsection \<open>The endpoints\<close>

record search_response =
  sr_session_id :: string
  sr_status :: string
  sr_message :: string

record status_response =
  st_session_id :: string
  st_status :: string
  st_progress :: int
  st_current_step :: string
  st_message :: string
  st_result :: "string option"

record output_response =
  out_session_id :: string
  out_output_log :: string

text \<open>\<^verbatim>\<open>HTTPException(status_code=..., detail=...)\<close>.\<close>

datatype http_exception = HTTPException nat string

text \<open>
  \<^verbatim>\<open>start_search\<close> (lines 158-189). \<open>uuid\<close> is what \<^verbatim>\<open>str(uuid.uuid4())\<close> returned;
  starting the thread puts it before line 76.
\<close>

definition start_search ::
    "(nat \<Rightarrow> datetime) \<Rightarrow> string \<Rightarrow> string \<Rightarrow> world \<Rightarrow> search_response \<times> world" where
  "start_search clk uuid q w =
     (let sid = uuid;
          w' = w\<lparr>search_sessions := (search_sessions w)(sid \<mapsto>
                    \<lparr>session_id = sid,
                     question = q,
                     status = ''started'',
                     progress = 0,
                     current_step = ''initializing'',
                     message = ''Research session started'',
                     result = None,
                     output_log = [],
                     created_at = isoformat (clk (ticks w)),
                     updated_at = isoformat (clk (Suc (ticks w))),
                     completed_at = None\<rparr>),
                  ticks := Suc (Suc (ticks w))\<rparr>;
          w'' = w'\<lparr>threads := (threads w')(sid \<mapsto> (q, L76))\<rparr>
      in (\<lparr>sr_session_id = sid,
           sr_status = ''started'',
           sr_message = ''Research session started successfully''\<rparr>, w''))"

text \<open>\<^verbatim>\<open>get_search_status\<close> (lines 191-206).\<close>

definition get_search_status :: "string \<Rightarrow> world \<Rightarrow> http_exception + status_response" where
  "get_search_status sid w =
     (case search_sessions w sid of
        None \<Rightarrow> Inl (HTTPException 404 ''Session not found'')
      | Some s \<Rightarrow>
          Inr \<lparr>st_session_id = sid,
               st_status = status s,
               st_progress = progress s,
               st_current_step = current_step s,
               st_message = message s,
               st_result = result s\<rparr>)"

text \<open>\<^verbatim>\<open>get_output_log\<close> (lines 208-219).\<close>

definition get_output_log :: "string \<Rightarrow> world \<Rightarrow> http_exception + output_response" where
  "get_output_log sid w =
     (case search_sessions w sid of
        None \<Rightarrow> Inl (HTTPException 404 ''Session not found'')
      | Some s \<Rightarrow> Inr \<lparr>out_session_id = sid, out_output_log = output_log s\<rparr>)"

text \<open>\<^verbatim>\<open>delete_session\<close> (lines 221-228): the response and the world it leaves.\<close>

definition delete_session :: "string \<Rightarrow> world \<Rightarrow> (http_exception + string) \<times> world" where
  "delete_session sid w =
     (case search_sessions w sid of
        None \<Rightarrow> (Inl (HTTPException 404 ''Session not found''), w)
      | Some s \<Rightarrow>
          (Inr ''Session deleted successfully'',
           w\<lparr>search_sessions := (search_sessions w)(sid := None)\<rparr>))"

subsection \<open>The process as a transition system\<close>

text \<open>
  What can happen next in the process: a submission, whose identifier
  \<^verbatim>\<open>uuid.uuid4()\<close> has never issued before; a deletion; one statement of one background
  thread. The two reading endpoints leave the world as it is.
\<close>

inductive step :: "(nat \<Rightarrow> datetime) \<Rightarrow> (state \<Rightarrow> pipeline_run) \<Rightarrow> world \<Rightarrow> world \<Rightarrow> bool"
  for clk :: "nat \<Rightarrow> datetime" and graph :: "state \<Rightarrow> pipeline_run" where
  submit: "sid \<notin> dom (threads w) \<Longrightarrow> step clk graph w (snd (start_search clk sid q w))"
| delete: "step clk graph w (snd (delete_session sid w))"
| run: "sid \<in> dom (threads w) \<Longrightarrow> step clk graph w (thread_step clk graph sid w)"

definition initial_world :: world where
  "initial_world = \<lparr>search_sessions = Map.empty, threads = Map.empty, ticks = 0\<rparr>"

inductive reachable :: "(nat \<Rightarrow> datetime) \<Rightarrow> (state \<Rightarrow> pipeline_run) \<Rightarrow> world \<Rightarrow> bool"
  for clk :: "nat \<Rightarrow> datetime" and graph :: "state \<Rightarrow> pipeline_run" where
  start: "reachable clk graph initial_world"
| after: "reachable clk graph w \<Longrightarrow> step clk graph w w' \<Longrightarrow> reachable clk graph w'"

subsection \<open>What holds of a session at each line of its thread\<close>

definition is_terminal :: "string \<Rightarrow> bool" where
  "is_terminal st =
     (st = ''completed'' \<or> st = ''partial_success'' \<or> st = ''timeout'' \<or> st = ''error'')"

definition in_flight :: "string \<Rightarrow> int \<Rightarrow> session \<Rightarrow> bool" where
  "in_flight st p s = (status s = st \<and> progress s = p \<and> result s = None)"

definition ended :: "string \<Rightarrow> session \<Rightarrow> bool" where
  "ended st s =
     (status s = st \<and>
      (if st = ''completed'' then
         progress s = 100 \<and> (case result s of None \<Rightarrow> False | Some a \<Rightarrow> a \<noteq> [])
       else if st = ''partial_success'' then
         progress s = 90 \<and> result s = Some partial_text
       else if st = ''timeout'' then
         progress s = 75 \<and> result s = Some timeout_text
       else
         st = ''error'' \<and> progress s = 0 \<and>
         (case result s of None \<Rightarrow> False | Some r \<Rightarrow> prefix error_prefix r)))"

fun job_ok :: "pc \<Rightarrow> session \<Rightarrow> bool" where
  "job_ok L76 s = in_flight ''started'' 0 s"
| "job_ok L77 s = in_flight ''running'' 0 s"
| "job_ok L78 s = in_flight ''running'' 5 s"
| "job_ok L97 s = in_flight ''running'' 5 s"
| "job_ok L98 s = in_flight ''running'' 5 s"
| "job_ok L107 s = in_flight ''running'' 10 s"
| "job_ok (L110 a) s = (a \<noteq> [] \<and> in_flight ''running'' 10 s)"
| "job_ok L118 s = ended ''completed'' s"
| "job_ok L120 s = in_flight ''running'' 10 s"
| "job_ok L128 s = ended ''partial_success'' s"
| "job_ok L131 s = in_flight ''running'' 10 s"
| "job_ok L139 s = ended ''timeout'' s"
| "job_ok (L142 e) s = in_flight ''running'' 10 s"
| "job_ok (L144 e) s = in_flight ''running'' 10 s"
| "job_ok Done s = ended (status s) s"
| "job_ok (Died e) s = in_flight ''running'' 10 s"

definition world_ok :: "world \<Rightarrow> bool" where
  "world_ok w =
     (\<forall>sid s. search_sessions w sid = Some s \<longrightarrow>
        (\<exists>q p. threads w sid = Some (q, p) \<and> job_ok p s))"

subsection \<open>Runs and concrete surroundings\<close>

text \<open>So many statements of the thread of session \<open>sid\<close>, with nothing in between.\<close>

primrec thread_steps ::
    "nat \<Rightarrow> (nat \<Rightarrow> datetime) \<Rightarrow> (state \<Rightarrow> pipeline_run) \<Rightarrow> string \<Rightarrow> world \<Rightarrow> world" where
  "thread_steps 0 clk graph sid w = w"
| "thread_steps (Suc n) clk graph sid w =
     thread_steps n clk graph sid (thread_step clk graph sid w)"

text \<open>
  A clock; four pipelines (one answers after 30 seconds, the others fail after a second:
  with an \<^verbatim>\<open>Exception\<close> whose message is the question, with a \<^verbatim>\<open>SystemExit\<close>, with
  a \<^verbatim>\<open>TimeoutError\<close>); the world after one submission; and three provider surroundings
  (one answers every request with a JSON array, one with a JSON object, one with the
  empty object).
\<close>

definition clock0 :: "nat \<Rightarrow> datetime" where
  "clock0 n = \<lparr>hms = ''12:00:00'', isoformat = ''2025-01-01T12:00:00''\<rparr>"

definition graph_answers :: "state \<Rightarrow> pipeline_run" where
  "graph_answers st = Finishes 30 (Some (st\<lparr>final_answer := Some ''Teslas''\<rparr>))"

definition graph_fails :: "state \<Rightarrow> pipeline_run" where
  "graph_fails st = Fails 1 Is_Exception (user_question st)"

definition graph_exits :: "state \<Rightarrow> pipeline_run" where
  "graph_exits st = Fails 1 Is_BaseException ''exit''"

definition graph_read_timeout :: "state \<Rightarrow> pipeline_run" where
  "graph_read_timeout st = Fails 1 Is_TimeoutError ''read timed out''"

definition submitted :: world where
  "submitted = snd (start_search clock0 ''s1'' ''q'' initial_world)"

definition env_array :: env where
  "env_array =
     \<lparr>api_key = Some ''key'',
      quote_plus = (\<lambda>s. s),
      post = (\<lambda>reqs. Responds \<lparr>ok = True, status_code = 200, body_text = ''[1]'',
                                body_json = Some (JArr [JNum 1])\<rparr>)\<rparr>"

definition env_empty_object :: env where
  "env_empty_object =
     \<lparr>api_key = Some ''key'',
      quote_plus = (\<lambda>s. s),
      post = (\<lambda>reqs. Responds \<lparr>ok = True, status_code = 200, body_text = ''{}'',
                                body_json = Some (JObj [])\<rparr>)\<rparr>"

definition env_object :: env where
  "env_object =
     \<lparr>api_key = Some ''key'',
      quote_plus = (\<lambda>s. s),
      post = (\<lambda>reqs. Responds \<lparr>ok = True, status_code = 200, body_text = [],
                                body_json = Some (JObj [(''organic'', JArr [JStr ''r1'']),
                                                        (''general'', JObj [])])\<rparr>)\<rparr>"

text \<open>Two jobs whose pipelines failed, in one world.\<close>

definition two_jobs_failed :: world where
  "two_jobs_failed =
     thread_steps 8 clock0 graph_fails ''s2''
       (thread_steps 8 clock0 graph_fails ''s1''
          (snd (start_search clock0 ''s2'' ''r'' submitted)))"

section \<open>Lemmas about the model\<close>

subsection \<open>The helpers and one statement of a thread\<close>

lemma log_other: "t \<noteq> sid \<Longrightarrow> search_sessions (log_to_session clk sid msg w) t = search_sessions w t"
  by (simp add: log_to_session_def Let_def split: option.splits)

lemma log_threads: "threads (log_to_session clk sid msg w) = threads w"
  by (simp add: log_to_session_def Let_def split: option.splits)

lemma log_absent: "search_sessions w sid = None \<Longrightarrow> log_to_session clk sid msg w = w"
  by (simp add: log_to_session_def)

lemma log_present:
  "search_sessions w sid = Some s \<Longrightarrow>
   search_sessions (log_to_session clk sid msg w) sid =
     Some (s\<lparr>output_log := output_log s @ ''['' @ hms (clk (ticks w)) @ ''] '' @ msg @ [CHR 0x0A]\<rparr>)"
  by (simp add: log_to_session_def Let_def)

lemma upd_other: "t \<noteq> sid \<Longrightarrow> search_sessions (update_session_progress clk sid p stp msg w) t = search_sessions w t"
  by (simp add: update_session_progress_def log_other split: option.splits)

lemma upd_threads: "threads (update_session_progress clk sid p stp msg w) = threads w"
  by (simp add: update_session_progress_def log_threads split: option.splits)

lemma upd_absent: "search_sessions w sid = None \<Longrightarrow> update_session_progress clk sid p stp msg w = w"
  by (simp add: update_session_progress_def)

lemma upd_present:
  "search_sessions w sid = Some s \<Longrightarrow>
   search_sessions (update_session_progress clk sid p stp msg w) sid =
     Some (s\<lparr>progress := p, current_step := stp, message := msg,
             updated_at := isoformat (clk (ticks w)),
             output_log := output_log s @ ''['' @ hms (clk (Suc (ticks w))) @ ''] ''
                @ (stp @ '': '' @ msg) @ [CHR 0x0A]\<rparr>)"
  by (simp add: update_session_progress_def log_to_session_def Let_def)

lemma term_absent: "search_sessions w sid = None \<Longrightarrow> terminal_update clk sid st p stp msg res w = Inl (KeyError sid)"
  by (simp add: terminal_update_def)

lemma term_present:
  "search_sessions w sid = Some s \<Longrightarrow>
   \<exists>w'. terminal_update clk sid st p stp msg res w = Inr w' \<and> threads w' = threads w \<and>
     (\<forall>t. t \<noteq> sid \<longrightarrow> search_sessions w' t = search_sessions w t) \<and>
     search_sessions w' sid = Some (s\<lparr>status := st, progress := p, current_step := stp,
        message := msg, result := Some res, completed_at := Some (isoformat (clk (ticks w)))\<rparr>)"
  by (simp add: terminal_update_def)

lemma exec_threads: "exec clk graph q sid p w = (p', w') \<Longrightarrow> threads w' = threads w"
  by (cases p) (auto simp: log_threads upd_threads terminal_update_def outer_except_def
       split: option.splits future_outcome.splits sum.splits if_splits)

lemma exec_other: "exec clk graph q sid p w = (p', w') \<Longrightarrow> t \<noteq> sid \<Longrightarrow> search_sessions w' t = search_sessions w t"
  by (cases p) (auto simp: log_other upd_other terminal_update_def outer_except_def
       split: option.splits future_outcome.splits sum.splits if_splits)

lemma exec_absent: "exec clk graph q sid p w = (p', w') \<Longrightarrow> search_sessions w sid = None \<Longrightarrow> search_sessions w' sid = None"
  by (cases p) (auto simp: log_absent upd_absent terminal_update_def outer_except_def
       split: option.splits future_outcome.splits sum.splits if_splits)

lemma in_flight_log: "in_flight st p (s\<lparr>output_log := l\<rparr>) = in_flight st p s"
  by (simp add: in_flight_def)

lemma ended_log: "ended st (s\<lparr>output_log := l\<rparr>) = ended st s"
  by (simp add: ended_def)

lemma job_ok_log: "job_ok p (s\<lparr>output_log := l\<rparr>) = job_ok p s"
  by (cases p) (simp_all add: in_flight_log ended_log)

lemma ended_completed:
  "a \<noteq> [] \<Longrightarrow> ended ''completed'' (s\<lparr>status := ''completed'', progress := 100,
      current_step := c, message := m, result := Some a, completed_at := t\<rparr>)"
  by (simp add: ended_def)

lemma ended_partial:
  "ended ''partial_success'' (s\<lparr>status := ''partial_success'', progress := 90,
      current_step := c, message := m, result := Some partial_text, completed_at := t\<rparr>)"
  by (simp add: ended_def)

lemma ended_timeout:
  "ended ''timeout'' (s\<lparr>status := ''timeout'', progress := 75,
      current_step := c, message := m, result := Some timeout_text, completed_at := t\<rparr>)"
  by (simp add: ended_def)

lemma ended_error:
  "ended ''error'' (s\<lparr>status := ''error'', progress := 0,
      current_step := c, message := m, result := Some (error_prefix @ x), completed_at := t\<rparr>)"
  by (simp add: ended_def)

lemma ended_status: "ended st s \<Longrightarrow> status s = st"
  by (simp add: ended_def)

lemma ended_Done: "ended st s \<Longrightarrow> job_ok Done s"
  using ended_status [of st s] by simp

lemma exec_log_line:
  assumes "search_sessions w sid = Some s" and "job_ok p' s"
  shows "\<exists>s'. search_sessions (log_to_session clk sid msg w) sid = Some s' \<and> job_ok p' s' \<and>
           prefix (output_log s) (output_log s') \<and> progress s \<le> progress s' \<and>
           status s' = status s"
  using assms by (simp add: log_present job_ok_log)

lemma exec_progress:
  assumes "search_sessions w sid = Some s" and "in_flight ''running'' p0 s" and "p0 \<le> p"
  shows "\<exists>s'. search_sessions (update_session_progress clk sid p stp msg w) sid = Some s' \<and>
           in_flight ''running'' p s' \<and>
           prefix (output_log s) (output_log s') \<and> progress s \<le> progress s' \<and>
           status s' = status s"
  using assms by (simp add: upd_present in_flight_def)

lemma exec_terminal:
  assumes "search_sessions w sid = Some s" and "in_flight ''running'' 10 s"
    and "ended st (s\<lparr>status := st, progress := p, current_step := stp, message := msg,
            result := Some res, completed_at := Some (isoformat (clk (ticks w)))\<rparr>)"
    and "st = ''error'' \<or> 10 \<le> p"
  shows "case terminal_update clk sid st p stp msg res w of
           Inl e \<Rightarrow> False
         | Inr w' \<Rightarrow>
             (\<exists>s'. search_sessions w' sid = Some s' \<and> ended st s' \<and> status s' = st \<and>
                prefix (output_log s) (output_log s') \<and>
                (status s' \<noteq> ''error'' \<longrightarrow> progress s \<le> progress s') \<and>
                status s = ''running'')"
  using assms by (auto simp: terminal_update_def in_flight_def)

lemma exec_present:
  assumes present: "search_sessions w sid = Some s" and ok: "job_ok p s"
    and ex: "exec clk graph q sid p w = (p', w')"
  shows "\<exists>s'. search_sessions w' sid = Some s' \<and> job_ok p' s' \<and>
           prefix (output_log s) (output_log s') \<and>
           (status s' \<noteq> ''error'' \<longrightarrow> progress s \<le> progress s') \<and>
           (status s = ''error'' \<longrightarrow> status s' = ''error'')"
proof (cases p)
  case L76
  with assms show ?thesis by (auto simp: in_flight_def)
next
  case L77
  with ok have "in_flight ''running'' 0 s" by simp
  from exec_progress [OF present this, where p = 5 and clk = clk and stp = "''initializing''"
      and msg = "''Starting research process...''"]
  show ?thesis using ex L77 by auto
next
  case L78
  with ok have nxt: "job_ok L97 s" by simp
  from ex L78 obtain m where "p' = L97" and "w' = log_to_session clk sid m w" by auto
  with exec_log_line [OF present nxt, of clk m] show ?thesis by auto
next
  case L97
  with ok have nxt: "job_ok L98 s" by simp
  from ex L97 obtain m where "p' = L98" and "w' = log_to_session clk sid m w" by auto
  with exec_log_line [OF present nxt, of clk m] show ?thesis by auto
next
  case L98
  with ok have "in_flight ''running'' 5 s" by simp
  from exec_progress [OF present this, where p = 10 and clk = clk and stp = "''research_started''"
      and msg = "''Running parallel searches...''"]
  show ?thesis using ex L98 by auto
next
  case L107
  with assms show ?thesis
    by (auto simp: answered_def outer_except_def split: future_outcome.splits option.splits if_splits)
next
  case (L110 a)
  with ok have a: "a \<noteq> []" and fl: "in_flight ''running'' 10 s" by simp_all
  have "10 \<le> (100::int)" by simp
  then show ?thesis
    using ex L110 exec_terminal [where clk = clk and stp = "''completed''" and msg = "''Research completed successfully!''",
        OF present fl ended_completed [OF a]]
    by (auto split: sum.splits)
next
  case L118
  with ok have nxt: "job_ok Done s" by (simp add: ended_status)
  from ex L118 obtain m where "p' = Done" and "w' = log_to_session clk sid m w" by auto
  with exec_log_line [OF present nxt, of clk m] show ?thesis by auto
next
  case L120
  with ok have fl: "in_flight ''running'' 10 s" by simp
  have "10 \<le> (90::int)" by simp
  then show ?thesis
    using ex L120 exec_terminal [where clk = clk and stp = "''completed_with_issues''"
        and msg = "''Research completed but with some issues''", OF present fl ended_partial]
    by (auto split: sum.splits)
next
  case L128
  with ok have nxt: "job_ok Done s" by (simp add: ended_status)
  from ex L128 obtain m where "p' = Done" and "w' = log_to_session clk sid m w" by auto
  with exec_log_line [OF present nxt, of clk m] show ?thesis by auto
next
  case L131
  with ok have fl: "in_flight ''running'' 10 s" by simp
  have "10 \<le> (75::int)" by simp
  then show ?thesis
    using ex L131 exec_terminal [where clk = clk and stp = "''timeout''" and msg = "''Research timed out after 7 minutes''",
        OF present fl ended_timeout]
    by (auto split: sum.splits)
next
  case L139
  with ok have nxt: "job_ok Done s" by (simp add: ended_status)
  from ex L139 obtain m where "p' = Done" and "w' = log_to_session clk sid m w" by auto
  with exec_log_line [OF present nxt, of clk m] show ?thesis by auto
next
  case (L142 e)
  with ok have nxt: "job_ok (L144 e) s" by simp
  from ex L142 obtain m where "p' = (L144 e)" and "w' = log_to_session clk sid m w" by auto
  with exec_log_line [OF present nxt, of clk m] show ?thesis by auto
next
  case (L144 e)
  with ok have fl: "in_flight ''running'' 10 s" by simp
  show ?thesis
    using ex L144 exec_terminal [where clk = clk and stp = "''error''"
        and msg = "''Error occurred: '' @ str e" and res = "error_prefix @ str e",
        OF present fl ended_error]
    by (auto split: sum.splits)
next
  case Done
  with assms show ?thesis by auto
next
  case (Died e)
  with assms show ?thesis by auto
qed

subsection \<open>The transition system\<close>

lemma start_search_sessions:
  "search_sessions (snd (start_search clk u q w)) =
     (search_sessions w)(u \<mapsto>
        \<lparr>session_id = u, question = q, status = ''started'', progress = 0,
         current_step = ''initializing'', message = ''Research session started'',
         result = None, output_log = [], created_at = isoformat (clk (ticks w)),
         updated_at = isoformat (clk (Suc (ticks w))), completed_at = None\<rparr>)"
  by (simp add: start_search_def Let_def)

lemma start_search_threads:
  "threads (snd (start_search clk u q w)) = (threads w)(u \<mapsto> (q, L76))"
  by (simp add: start_search_def Let_def)

lemma delete_session_sessions:
  "search_sessions (snd (delete_session sid w)) = (search_sessions w)(sid := None)"
  by (auto simp: delete_session_def split: option.splits)

lemma delete_session_threads: "threads (snd (delete_session sid w)) = threads w"
  by (simp add: delete_session_def split: option.splits)

lemma thread_step_sessions:
  "threads w sid = Some (q, p) \<Longrightarrow>
   search_sessions (thread_step clk graph sid w) = search_sessions (snd (exec clk graph q sid p w))"
  by (simp add: thread_step_def split: prod.splits)

lemma thread_step_threads:
  "threads w sid = Some (q, p) \<Longrightarrow>
   threads (thread_step clk graph sid w) = (threads w)(sid \<mapsto> (q, fst (exec clk graph q sid p w)))"
  by (auto simp: thread_step_def exec_threads split: prod.splits)

lemma step_cases_sessions:
  assumes "step clk graph w w'"
  obtains (submit) u q where "u \<notin> dom (threads w)"
      and "search_sessions w' = (search_sessions w)(u \<mapsto>
        \<lparr>session_id = u, question = q, status = ''started'', progress = 0,
         current_step = ''initializing'', message = ''Research session started'',
         result = None, output_log = [], created_at = isoformat (clk (ticks w)),
         updated_at = isoformat (clk (Suc (ticks w))), completed_at = None\<rparr>)"
      and "threads w' = (threads w)(u \<mapsto> (q, L76))"
  | (delete) u where "search_sessions w' = (search_sessions w)(u := None)"
      and "threads w' = threads w"
  | (run) u q p p' w1 where "threads w u = Some (q, p)" and "exec clk graph q u p w = (p', w1)"
      and "search_sessions w' = search_sessions w1" and "threads w' = (threads w)(u \<mapsto> (q, p'))"
  using assms
proof cases
  case (submit sid q)
  then show ?thesis
    using that(1) [of sid q] by (simp add: start_search_sessions start_search_threads)
next
  case (delete sid)
  then show ?thesis
    using that(2) [of sid] by (simp add: delete_session_sessions delete_session_threads)
next
  case (run sid)
  then obtain q p where t: "threads w sid = Some (q, p)" by auto
  obtain p' w1 where e: "exec clk graph q sid p w = (p', w1)" by (cases "exec clk graph q sid p w")
  show ?thesis
    using that(3) [OF t e] run t e by (simp add: thread_step_sessions thread_step_threads)
qed

lemma world_okD:
  "world_ok w \<Longrightarrow> search_sessions w sid = Some s \<Longrightarrow> threads w sid = Some (q, p) \<Longrightarrow> job_ok p s"
  unfolding world_ok_def by fastforce

lemma world_ok_thread:
  "world_ok w \<Longrightarrow> search_sessions w sid = Some s \<Longrightarrow> sid \<in> dom (threads w)"
  unfolding world_ok_def by fastforce

lemma step_world_ok:
  assumes "world_ok w" and "step clk graph w w'"
  shows "world_ok w'"
  using assms(2)
proof (cases rule: step_cases_sessions)
  case (submit u q)
  with assms(1) show ?thesis
    by (auto simp: world_ok_def in_flight_def)
next
  case (delete u)
  with assms(1) show ?thesis
    by (auto simp: world_ok_def split: if_splits)
next
  case (run u q p p' w1)
  show ?thesis
    unfolding world_ok_def
  proof (intro allI impI)
    fix sid s'
    assume s': "search_sessions w' sid = Some s'"
    show "\<exists>q p. threads w' sid = Some (q, p) \<and> job_ok p s'"
    proof (cases "sid = u")
      case True
      with s' run have "search_sessions w1 u = Some s'" by simp
      with exec_absent [OF run(2)] obtain s where s: "search_sessions w u = Some s"
        by (cases "search_sessions w u") auto
      from world_okD [OF assms(1) s run(1)] have "job_ok p s" .
      from exec_present [OF s this run(2)] \<open>search_sessions w1 u = Some s'\<close>
      have "job_ok p' s'" by auto
      with True run show ?thesis by simp
    next
      case False
      with s' run exec_other [OF run(2), of sid] have "search_sessions w sid = Some s'" by simp
      with assms(1) False run show ?thesis by (auto simp: world_ok_def)
    qed
  qed
qed

lemma reachable_world_ok: "reachable clk graph w \<Longrightarrow> world_ok w"
proof (induction rule: reachable.induct)
  case start
  show ?case by (simp add: world_ok_def initial_world_def)
next
  case (after w w')
  then show ?case by (simp add: step_world_ok)
qed

lemma step_session:
  assumes ok: "world_ok w" and st: "step clk graph w w'"
    and s: "search_sessions w sid = Some s" and s': "search_sessions w' sid = Some s'"
  shows "prefix (output_log s) (output_log s') \<and>
         (status s' \<noteq> ''error'' \<longrightarrow> progress s \<le> progress s') \<and>
         (status s = ''error'' \<longrightarrow> status s' = ''error'')"
  using st
proof (cases rule: step_cases_sessions)
  case (submit u q)
  from ok s have "sid \<in> dom (threads w)" by (auto simp: world_ok_def)
  with submit have "sid \<noteq> u" by auto
  with submit s s' show ?thesis by simp
next
  case (delete u)
  with s s' show ?thesis by (auto split: if_splits)
next
  case (run u q p p' w1)
  show ?thesis
  proof (cases "sid = u")
    case True
    with world_okD [OF ok s] run(1) have "job_ok p s" by simp
    from exec_present [OF _ this run(2)] s s' True run show ?thesis by auto
  next
    case False
    with s s' run exec_other [OF run(2), of sid] show ?thesis by simp
  qed
qed

lemma step_threads_mono: "step clk graph w w' \<Longrightarrow> dom (threads w) \<subseteq> dom (threads w')"
  by (cases rule: step_cases_sessions) auto

lemma step_gone:
  assumes "step clk graph w w'" and "sid \<in> dom (threads w)" and "search_sessions w sid = None"
  shows "search_sessions w' sid = None"
  using assms(1)
proof (cases rule: step_cases_sessions)
  case (submit u q)
  with assms show ?thesis by auto
next
  case (delete u)
  with assms show ?thesis by auto
next
  case (run u q p p' w1)
  with assms exec_absent [OF run(2)] exec_other [OF run(2), of sid] show ?thesis
    by (cases "sid = u") auto
qed

lemma steps_reachable:
  "(step clk graph)\<^sup>*\<^sup>* w w' \<Longrightarrow> reachable clk graph w \<Longrightarrow> reachable clk graph w'"
  by (induction rule: rtranclp_induct) (auto intro: reachable.after)

lemma steps_session:
  assumes "(step clk graph)\<^sup>*\<^sup>* w w'" and "reachable clk graph w"
    and "search_sessions w sid = Some s"
  shows "search_sessions w' sid = None \<or>
         (\<exists>s'. search_sessions w' sid = Some s' \<and> prefix (output_log s) (output_log s') \<and>
            (status s' \<noteq> ''error'' \<longrightarrow> progress s \<le> progress s'))"
    and "sid \<in> dom (threads w')"
  using assms
proof (induction rule: rtranclp_induct)
  case base
  {
    case 1
    then show ?case by simp
  next
    case 2
    with reachable_world_ok [of clk graph w] show ?case by (auto simp: world_ok_def)
  }
next
  case (step y z)
  {
    case 1
    have ry: "reachable clk graph y" using steps_reachable step.hyps(1) 1(1) by blast
    show ?case
    proof (cases "search_sessions z sid")
      case None
      then show ?thesis by simp
    next
      case (Some s'')
      from step.IH(2) [OF 1] have th: "sid \<in> dom (threads y)" .
      from step_gone [OF step.hyps(2) th] Some
      obtain s' where y: "search_sessions y sid = Some s'"
        by (cases "search_sessions y sid") auto
      with step.IH(1) [OF 1]
      have a: "prefix (output_log s) (output_log s')"
        and b: "status s' \<noteq> ''error'' \<longrightarrow> progress s \<le> progress s'" by simp_all
      from step_session [OF reachable_world_ok [OF ry] step.hyps(2) y Some]
      have c: "prefix (output_log s') (output_log s'')"
        and d: "status s'' \<noteq> ''error'' \<longrightarrow> progress s' \<le> progress s''"
        and e: "status s' = ''error'' \<longrightarrow> status s'' = ''error''" by simp_all
      from a c have "prefix (output_log s) (output_log s'')" by (rule prefix_order.trans)
      moreover from b d e have "status s'' \<noteq> ''error'' \<longrightarrow> progress s \<le> progress s''" by auto
      ultimately show ?thesis using Some by simp
    qed
  next
    case 2
    from step.IH(2) [OF 2] step_threads_mono [OF step.hyps(2)] show ?case by auto
  }
qed

subsection \<open>Runs\<close>

lemma thread_step_dom: "dom (threads (thread_step clk graph sid w)) = dom (threads w)"
proof (cases "threads w sid")
  case None
  then show ?thesis by (simp add: thread_step_def)
next
  case (Some a)
  then obtain q p where "threads w sid = Some (q, p)" by (cases a) auto
  then show ?thesis by (auto simp: thread_step_threads)
qed

lemma thread_steps_star:
  "sid \<in> dom (threads w) \<Longrightarrow> (step clk graph)\<^sup>*\<^sup>* w (thread_steps n clk graph sid w)"
proof (induction n arbitrary: w)
  case 0
  show ?case by simp
next
  case (Suc n)
  from Suc.prems have "step clk graph w (thread_step clk graph sid w)" by (rule step.run)
  moreover from Suc.prems have "sid \<in> dom (threads (thread_step clk graph sid w))"
    by (simp add: thread_step_dom)
  then have "(step clk graph)\<^sup>*\<^sup>* (thread_step clk graph sid w)
               (thread_steps n clk graph sid (thread_step clk graph sid w))"
    by (rule Suc.IH)
  ultimately show ?case by simp
qed

lemma reachable_submitted: "reachable clock0 graph submitted"
proof -
  have "''s1'' \<notin> dom (threads initial_world)" by (simp add: initial_world_def)
  then have "step clock0 graph initial_world (snd (start_search clock0 ''s1'' ''q'' initial_world))"
    by (rule step.submit)
  with reachable.start show ?thesis unfolding submitted_def by (rule reachable.after)
qed

lemma threads_submitted: "threads submitted = [''s1'' \<mapsto> (''q'', L76)]"
  by (simp add: submitted_def start_search_def initial_world_def Let_def)

lemma reachable_thread_steps: "reachable clock0 graph (thread_steps n clock0 graph ''s1'' submitted)"
proof -
  have "''s1'' \<in> dom (threads submitted)" by (simp add: threads_submitted)
  from thread_steps_star [OF this] reachable_submitted show ?thesis by (rule steps_reachable)
qed

lemma exec_n_run:
  "exec_n 9 clk graph q sid (L76, w) =
     (case run_research_with_tracking clk graph q sid w of
        (None, w') \<Rightarrow> (Done, w')
      | (Some e, w') \<Rightarrow> (Died e, w'))"
proof (cases "search_sessions w sid")
  case None
  then show ?thesis
    by (simp add: eval_nat_numeral run_research_with_tracking_def try_block_def
          outer_except_def log_absent term_absent)
next
  case (Some s)
  define w5 where "w5 =
    update_session_progress clk sid 10 ''research_started'' ''Running parallel searches...''
      (log_to_session clk sid (arrows @ '' Starting parallel research process...'')
        (log_to_session clk sid
           (rocket @ '' Starting multi-source research for: '' @ apostrophe @ q @ apostrophe)
           (update_session_progress clk sid 5 ''initializing'' ''Starting research process...''
              (w\<lparr>search_sessions := (search_sessions w)(sid \<mapsto> s\<lparr>status := ''running''\<rparr>)\<rparr>))))"
  have head: "exec_n 9 clk graph q sid (L76, w) = exec_n 4 clk graph q sid (L107, w5)"
    using Some by (simp add: eval_nat_numeral w5_def)
  have body: "try_block clk graph q sid w = wait_and_classify clk graph q sid w5"
    unfolding try_block_def Let_def w5_def Some option.case by (rule refl)
  show ?thesis
  proof (cases "future_result 420 (graph (initial_state q))")
    case (Returned fs)
    show ?thesis
    proof (cases "answered fs")
      case None
      with Returned show ?thesis
        unfolding head run_research_with_tracking_def body wait_and_classify_def
        by (simp add: eval_nat_numeral outer_except_def split: sum.splits)
    next
      case (Some a)
      with Returned show ?thesis
        unfolding head run_research_with_tracking_def body wait_and_classify_def
        by (simp add: eval_nat_numeral outer_except_def split: sum.splits)
    qed
  next
    case (Raised x)
    show ?thesis
    proof (cases "is_TimeoutError x")
      case True
      with Raised show ?thesis
        unfolding head run_research_with_tracking_def body wait_and_classify_def
        by (simp add: eval_nat_numeral outer_except_def split: sum.splits)
    next
      case False
      with Raised show ?thesis
        unfolding head run_research_with_tracking_def body wait_and_classify_def
        by (cases "is_Exception x")
          (simp_all add: eval_nat_numeral outer_except_def split: sum.splits)
    qed
  qed
qed

lemma log_keeps:
  assumes "search_sessions w sid = Some s"
  shows "\<exists>s'. search_sessions (log_to_session clk sid msg w) sid = Some s' \<and>
           status s' = status s \<and> progress s' = progress s \<and> result s' = result s \<and>
           current_step s' = current_step s \<and> message s' = message s"
  using assms by (simp add: log_present)

lemma upd_keeps:
  assumes "search_sessions w sid = Some s"
  shows "\<exists>s'. search_sessions (update_session_progress clk sid p stp msg w) sid = Some s' \<and>
           status s' = status s \<and> progress s' = p \<and> result s' = result s"
  using assms by (simp add: upd_present)

lemma terminal_then_log:
  assumes "search_sessions w sid = Some s"
  shows "\<exists>w' s'. terminal_update clk sid st p stp msg res w = Inr w' \<and>
           search_sessions (log_to_session clk sid line w') sid = Some s' \<and>
           search_sessions w' sid = Some (s'\<lparr>output_log := output_log s\<rparr>) \<and>
           status s' = st \<and> progress s' = p \<and> current_step s' = stp \<and>
           message s' = msg \<and> result s' = Some res"
  using assms by (simp add: terminal_update_def log_to_session_def Let_def)

lemma try_block_reaches_wait:
  assumes "search_sessions w sid = Some s"
  shows "\<exists>w5 s5. search_sessions w5 sid = Some s5 \<and>
     status s5 = ''running'' \<and> progress s5 = 10 \<and> result s5 = result s \<and>
     try_block clk graph q sid w = wait_and_classify clk graph q sid w5"
proof -
  define w1 where "w1 = w\<lparr>search_sessions := (search_sessions w)(sid \<mapsto> s\<lparr>status := ''running''\<rparr>)\<rparr>"
  define w2 where "w2 = update_session_progress clk sid 5 ''initializing''
                      ''Starting research process...'' w1"
  define w3 where "w3 = log_to_session clk sid
                      (rocket @ '' Starting multi-source research for: ''
                         @ apostrophe @ q @ apostrophe) w2"
  define w4 where "w4 = log_to_session clk sid
                      (arrows @ '' Starting parallel research process...'') w3"
  define w5 where "w5 = update_session_progress clk sid 10 ''research_started''
                      ''Running parallel searches...'' w4"
  have "search_sessions w1 sid = Some (s\<lparr>status := ''running''\<rparr>)" by (simp add: w1_def)
  from upd_keeps [OF this] obtain s2 where "search_sessions w2 sid = Some s2"
    and "status s2 = ''running''" and "result s2 = result s"
    unfolding w2_def by fastforce
  from log_keeps [OF this(1)] this(2,3) obtain s3 where "search_sessions w3 sid = Some s3"
    and "status s3 = ''running''" and "result s3 = result s"
    unfolding w3_def by fastforce
  from log_keeps [OF this(1)] this(2,3) obtain s4 where "search_sessions w4 sid = Some s4"
    and "status s4 = ''running''" and "result s4 = result s"
    unfolding w4_def by fastforce
  from upd_keeps [OF this(1)] this(2,3) obtain s5 where s5: "search_sessions w5 sid = Some s5"
    "status s5 = ''running''" "progress s5 = 10" "result s5 = result s"
    unfolding w5_def by fastforce
  have "try_block clk graph q sid w = wait_and_classify clk graph q sid w5"
    unfolding try_block_def Let_def w5_def w4_def w3_def w2_def w1_def assms option.case
    by (rule refl)
  with s5 show ?thesis by blast
qed

lemma run_outcome:
  assumes "search_sessions w sid = Some s"
  shows "\<exists>x w' s'. run_research_with_tracking clk graph q sid w = (x, w') \<and>
     search_sessions w' sid = Some s' \<and>
     (case future_result 420 (graph (initial_state q)) of
        Returned final_state \<Rightarrow>
          (case answered final_state of
             Some a \<Rightarrow>
               x = None \<and> status s' = ''completed'' \<and> progress s' = 100 \<and>
               current_step s' = ''completed'' \<and>
               message s' = ''Research completed successfully!'' \<and> result s' = Some a
           | None \<Rightarrow>
               x = None \<and> status s' = ''partial_success'' \<and> progress s' = 90 \<and>
               current_step s' = ''completed_with_issues'' \<and>
               message s' = ''Research completed but with some issues'' \<and>
               result s' = Some partial_text)
      | Raised e \<Rightarrow>
          if is_TimeoutError e then
            x = None \<and> status s' = ''timeout'' \<and> progress s' = 75 \<and>
            current_step s' = ''timeout'' \<and>
            message s' = ''Research timed out after 7 minutes'' \<and>
            result s' = Some timeout_text
          else if is_Exception e then
            x = None \<and> status s' = ''error'' \<and> progress s' = 0 \<and>
            current_step s' = ''error'' \<and>
            message s' = ''Error occurred: '' @ str e \<and>
            result s' = Some (error_prefix @ str e)
          else
            x = Some e \<and> status s' = ''running'' \<and> progress s' = 10 \<and>
            result s' = result s)"
proof -
  from try_block_reaches_wait [OF assms, of clk graph q]
  obtain w5 s5 where s5: "search_sessions w5 sid = Some s5"
    and f5: "status s5 = ''running''" "progress s5 = 10" "result s5 = result s"
    and tb: "try_block clk graph q sid w = wait_and_classify clk graph q sid w5"
    by blast
  show ?thesis
  proof (cases "future_result 420 (graph (initial_state q))")
    case (Returned fs)
    show ?thesis
    proof (cases "answered fs")
      case None
      from terminal_then_log [OF s5, of clk "''partial_success''" 90 "''completed_with_issues''"
          "''Research completed but with some issues''" partial_text
          "warning @ '' Research completed with some issues''"]
      show ?thesis
        unfolding run_research_with_tracking_def tb wait_and_classify_def
        using Returned None by auto
    next
      case (Some a)
      from terminal_then_log [OF s5, of clk "''completed''" 100 "''completed''"
          "''Research completed successfully!''" a
          "party @ '' Research completed successfully!''"]
      show ?thesis
        unfolding run_research_with_tracking_def tb wait_and_classify_def
        using Returned Some by auto
    qed
  next
    case (Raised e)
    show ?thesis
    proof (cases "is_TimeoutError e")
      case True
      from terminal_then_log [OF s5, of clk "''timeout''" 75 "''timeout''"
          "''Research timed out after 7 minutes''" timeout_text
          "alarm @ '' Research timed out after 7 minutes''"]
      show ?thesis
        unfolding run_research_with_tracking_def tb wait_and_classify_def
        using Raised True by auto
    next
      case nt: False
      show ?thesis
      proof (cases "is_Exception e")
        case True
        from log_keeps [OF s5, of clk "cross @ '' Research failed: '' @ str e"]
        obtain s6 where s6: "search_sessions (log_to_session clk sid
            (cross @ '' Research failed: '' @ str e) w5) sid = Some s6" by blast
        from term_present [OF s6, of clk "''error''" 0 "''error''" "''Error occurred: '' @ str e"
            "error_prefix @ str e"]
        show ?thesis
          unfolding run_research_with_tracking_def tb wait_and_classify_def
          using Raised nt True by auto
      next
        case False
        with s5 f5 show ?thesis
          unfolding run_research_with_tracking_def tb wait_and_classify_def
          using Raised nt by auto
      qed
    qed
  qed
qed

lemma reachable_thread_run:
  assumes "reachable clk graph w" and "sid \<in> dom (threads w)"
  shows "reachable clk graph (thread_steps n clk graph sid w)"
  using thread_steps_star [OF assms(2)] assms(1) by (rule steps_reachable)

lemmas run_eval =
  thread_step_def submitted_def start_search_def initial_world_def Let_def
  update_session_progress_def log_to_session_def terminal_update_def future_result_def
  answered_def initial_state_def outer_except_def

lemma ended_self: "ended st s \<Longrightarrow> ended (status s) s"
  using ended_status [of st s] by simp

lemma ended_cases:
  assumes "ended st s"
  shows "status s = st \<and>
    ((st = ''completed'' \<and> progress s = 100 \<and> (\<exists>a. result s = Some a \<and> a \<noteq> [])) \<or>
     (st = ''partial_success'' \<and> progress s = 90 \<and> result s = Some partial_text) \<or>
     (st = ''timeout'' \<and> progress s = 75 \<and> result s = Some timeout_text) \<or>
     (st = ''error'' \<and> progress s = 0 \<and> (\<exists>m. result s = Some (error_prefix @ m))))"
proof (cases "st = ''completed''")
  case True
  with assms show ?thesis by (auto simp: ended_def split: option.splits)
next
  case c: False
  show ?thesis
  proof (cases "st = ''partial_success''")
    case True
    with assms show ?thesis by (simp add: ended_def)
  next
    case p: False
    show ?thesis
    proof (cases "st = ''timeout''")
      case True
      with assms show ?thesis by (simp add: ended_def)
    next
      case False
      with c p assms show ?thesis
        by (auto simp: ended_def prefix_def split: option.splits)
    qed
  qed
qed

lemma job_summary:
  assumes "job_ok p s"
  shows "(result s = None \<and> (status s = ''started'' \<or> status s = ''running'') \<and>
          (progress s = 0 \<or> progress s = 5 \<or> progress s = 10)) \<or>
         ended (status s) s"
proof (cases p)
  case L118
  with assms show ?thesis by (simp add: ended_self)
next
  case L128
  with assms show ?thesis by (simp add: ended_self)
next
  case L139
  with assms show ?thesis by (simp add: ended_self)
qed (use assms in \<open>simp_all add: in_flight_def\<close>)

lemma reachable_job:
  assumes "reachable clk graph w" and "search_sessions w sid = Some s"
  shows "(result s = None \<and> (status s = ''started'' \<or> status s = ''running'') \<and>
          (progress s = 0 \<or> progress s = 5 \<or> progress s = 10)) \<or>
         ended (status s) s"
proof -
  from reachable_world_ok [OF assms(1)] assms(2)
  obtain q p where "job_ok p s" unfolding world_ok_def by blast
  then show ?thesis by (rule job_summary)
qed

lemma thread_steps_dom: "dom (threads (thread_steps n clk graph sid w)) = dom (threads w)"
  by (induction n arbitrary: w) (simp_all add: thread_step_dom)

lemma reachable_two_jobs_failed: "reachable clock0 graph_fails two_jobs_failed"
proof -
  have "''s2'' \<notin> dom (threads submitted)" by (simp add: threads_submitted)
  then have "step clock0 graph_fails submitted (snd (start_search clock0 ''s2'' ''r'' submitted))"
    by (rule step.submit)
  with reachable_submitted
  have r: "reachable clock0 graph_fails (snd (start_search clock0 ''s2'' ''r'' submitted))"
    by (rule reachable.after)
  have d: "dom (threads (snd (start_search clock0 ''s2'' ''r'' submitted))) = {''s1'', ''s2''}"
    by (auto simp: start_search_threads threads_submitted)
  then have "''s1'' \<in> dom (threads (snd (start_search clock0 ''s2'' ''r'' submitted)))" by simp
  with r have r1: "reachable clock0 graph_fails
      (thread_steps 8 clock0 graph_fails ''s1'' (snd (start_search clock0 ''s2'' ''r'' submitted)))"
    by (rule reachable_thread_run)
  from d have "''s2'' \<in> dom (threads
      (thread_steps 8 clock0 graph_fails ''s1'' (snd (start_search clock0 ''s2'' ''r'' submitted))))"
    by (simp add: thread_steps_dom)
  with r1 show ?thesis unfolding two_jobs_failed_def by (rule reachable_thread_run)
qed

subsection \<open>A thread alone is the function\<close>

lemma log_threads_update:
  "log_to_session clk sid msg (w\<lparr>threads := T\<rparr>) = (log_to_session clk sid msg w)\<lparr>threads := T\<rparr>"
  by (simp add: log_to_session_def Let_def split: option.splits)

lemma upd_threads_update:
  "update_session_progress clk sid p stp msg (w\<lparr>threads := T\<rparr>) =
   (update_session_progress clk sid p stp msg w)\<lparr>threads := T\<rparr>"
  by (simp add: update_session_progress_def log_to_session_def Let_def split: option.splits)

lemma term_threads_update:
  "terminal_update clk sid st p stp msg res (w\<lparr>threads := T\<rparr>) =
   map_sum id (\<lambda>w'. w'\<lparr>threads := T\<rparr>) (terminal_update clk sid st p stp msg res w)"
  by (simp add: terminal_update_def split: option.splits)

lemma exec_threads_update:
  "exec clk graph q sid p (w\<lparr>threads := T\<rparr>) =
   (fst (exec clk graph q sid p w), (snd (exec clk graph q sid p w))\<lparr>threads := T\<rparr>)"
  by (cases p)
    (simp_all add: log_threads_update upd_threads_update term_threads_update
       split: option.splits future_outcome.splits sum.splits)

lemma exec_n_threads_update:
  "exec_n n clk graph q sid (p, w\<lparr>threads := T\<rparr>) =
   (fst (exec_n n clk graph q sid (p, w)), (snd (exec_n n clk graph q sid (p, w)))\<lparr>threads := T\<rparr>)"
proof (induction n arbitrary: p w)
  case 0
  show ?case by simp
next
  case (Suc n)
  show ?case
    using Suc.IH [of "fst (exec clk graph q sid p w)" "snd (exec clk graph q sid p w)"]
    by (simp add: exec_threads_update)
qed

lemma exec_n_threads:
  "threads (snd (exec_n n clk graph q sid (p, w))) = threads w"
proof (induction n arbitrary: p w)
  case 0
  show ?case by simp
next
  case (Suc n)
  have "threads (snd (exec clk graph q sid p w)) = threads w"
    by (rule exec_threads [of clk graph q sid p w "fst (exec clk graph q sid p w)"]) simp
  with Suc.IH [of "fst (exec clk graph q sid p w)" "snd (exec clk graph q sid p w)"]
  show ?case by simp
qed

lemma thread_steps_exec_n:
  assumes "threads w sid = Some (q, p)"
  shows "thread_steps n clk graph sid w =
    (snd (exec_n n clk graph q sid (p, w)))
      \<lparr>threads := (threads w)(sid \<mapsto> (q, fst (exec_n n clk graph q sid (p, w))))\<rparr>"
  using assms
proof (induction n arbitrary: p w)
  case 0
  then have "(threads w)(sid \<mapsto> (q, p)) = threads w" by (simp add: map_upd_triv)
  then show ?case by simp
next
  case (Suc n)
  define p1 where "p1 = fst (exec clk graph q sid p w)"
  define w1 where "w1 = snd (exec clk graph q sid p w)"
  have e: "exec clk graph q sid p w = (p1, w1)" by (simp add: p1_def w1_def)
  have t1: "threads w1 = threads w" using exec_threads [OF e] .
  have ts: "thread_step clk graph sid w = w1\<lparr>threads := (threads w)(sid \<mapsto> (q, p1))\<rparr>"
    using Suc.prems e t1 by (simp add: thread_step_def)
  have "threads (w1\<lparr>threads := (threads w)(sid \<mapsto> (q, p1))\<rparr>) sid = Some (q, p1)" by simp
  from Suc.IH [OF this]
  show ?case
    by (simp add: ts e exec_n_threads_update cong: if_cong)
qed

text \<open>
  A thread that runs without interference from line 76 leaves the store that the function
  leaves.
\<close>

lemma thread_run_is_function:
  assumes "threads w sid = Some (q, L76)"
  shows "search_sessions (thread_steps 9 clk graph sid w) =
    search_sessions (snd (run_research_with_tracking clk graph q sid w))"
proof -
  have "search_sessions (thread_steps 9 clk graph sid w) =
      search_sessions (snd (exec_n 9 clk graph q sid (L76, w)))"
    by (simp add: thread_steps_exec_n [OF assms])
  also have "\<dots> = search_sessions (snd (run_research_with_tracking clk graph q sid w))"
    by (simp add: exec_n_run split: prod.splits option.splits)
  finally show ?thesis .
qed

subsection \<open>The provider client\<close>

lemma make_api_request_failure:
  assumes "case post e (sent @ [\<lparr>url = u,
              headers = [(''Authorization'',
                            ''Bearer '' @ (case api_key e of None \<Rightarrow> ''None'' | Some k \<Rightarrow> k)),
                         (''Content-Type'', ''application/json'')],
              kwargs = kw\<rparr>]) of
             Responds r \<Rightarrow> \<not> ok r \<or> body_json r = None
           | _ \<Rightarrow> True"
  shows "fst (make_api_request e u kw sent) = JNull"
  using assms
  by (auto simp: make_api_request_def Let_def split: post_result.splits option.splits)

lemma make_api_request_sends_one:
  "length (snd (make_api_request e u kw sent)) = Suc (length sent)"
  by (simp add: make_api_request_def Let_def split: post_result.splits option.splits)

lemma serp_zones_all_fail:
  assumes "\<And>u kw reqs. \<not> truthy (fst (make_api_request e u kw reqs))"
  shows "fst (serp_zones e base_url query zones sent) = Inr None \<and>
         length (snd (serp_zones e base_url query zones sent)) = length sent + length zones"
proof (induction zones arbitrary: sent)
  case Nil
  show ?case by simp
next
  case (Cons zone zones)
  define kw where "kw = [(''json'', JObj [(''zone'', JStr zone),
      (''url'', JStr (base_url @ ''?q='' @ quote_plus e query @ ''&brd_json=1'')),
      (''format'', JStr ''raw'')])]"
  obtain fr sent' where m: "make_api_request e ''https://api.brightdata.com/request'' kw sent
      = (fr, sent')"
    by (cases "make_api_request e ''https://api.brightdata.com/request'' kw sent")
  from assms [of "''https://api.brightdata.com/request''" kw sent] m
  have f: "\<not> truthy fr" by simp
  from make_api_request_sends_one [of e "''https://api.brightdata.com/request''" kw sent] m
  have l: "length sent' = Suc (length sent)" by simp
  from m f have "serp_zones e base_url query (zone # zones) sent =
      serp_zones e base_url query zones sent'"
    by (simp add: kw_def Let_def)
  with Cons.IH [of sent'] l show ?case by simp
qed

section \<open>The claims\<close>

text \<open>
  C1. In every world the process can reach, a stored job has a result exactly when its
  status is one of completed, partial\_success, timeout, error.
\<close>

theorem result_iff_terminal:
  assumes "reachable clk graph w" and "search_sessions w sid = Some s"
  shows "(result s \<noteq> None) = is_terminal (status s)"
proof -
  from reachable_world_ok [OF assms(1)] assms(2)
  obtain q p where "job_ok p s" unfolding world_ok_def by blast
  then show ?thesis
    by (cases p)
      (auto simp: in_flight_def ended_def is_terminal_def split: if_splits option.splits)
qed

theorem result_iff_terminal_witness:
  "reachable clock0 graph_answers (thread_steps 8 clock0 graph_answers ''s1'' submitted) \<and>
   (\<exists>s. search_sessions (thread_steps 8 clock0 graph_answers ''s1'' submitted) ''s1'' = Some s \<and>
        status s = ''completed'' \<and> result s = Some ''Teslas'' \<and>
        ((result s \<noteq> None) = is_terminal (status s)))"
proof -
  have r: "reachable clock0 graph_answers (thread_steps 8 clock0 graph_answers ''s1'' submitted)"
    by (rule reachable_thread_steps)
  obtain s where s: "search_sessions (thread_steps 8 clock0 graph_answers ''s1'' submitted) ''s1'' = Some s"
    and c: "status s = ''completed''" "result s = Some ''Teslas''"
    by (simp add: eval_nat_numeral run_eval graph_answers_def)
  from result_iff_terminal [OF r s] r s c show ?thesis by blast
qed

text \<open>
  C2, as the code has it. Progress stays within 0 and 100; a job that has ended stands at
  100, 90, 75 or 0 by its status; and in every later world in which the job is still
  stored and has not ended in error, its progress is at least what it was.
\<close>

theorem progress_bounded_and_ordered:
  assumes "reachable clk graph w" and "search_sessions w sid = Some s"
  shows "0 \<le> progress s \<and> progress s \<le> 100 \<and>
    (status s = ''completed'' \<longrightarrow> progress s = 100) \<and>
    (status s = ''partial_success'' \<longrightarrow> progress s = 90) \<and>
    (status s = ''timeout'' \<longrightarrow> progress s = 75) \<and>
    (status s = ''error'' \<longrightarrow> progress s = 0) \<and>
    (\<forall>w' s'. (step clk graph)\<^sup>*\<^sup>* w w' \<longrightarrow> search_sessions w' sid = Some s' \<longrightarrow>
        status s' \<noteq> ''error'' \<longrightarrow> progress s \<le> progress s')"
proof -
  have now: "0 \<le> progress s \<and> progress s \<le> 100 \<and>
    (status s = ''completed'' \<longrightarrow> progress s = 100) \<and>
    (status s = ''partial_success'' \<longrightarrow> progress s = 90) \<and>
    (status s = ''timeout'' \<longrightarrow> progress s = 75) \<and>
    (status s = ''error'' \<longrightarrow> progress s = 0)"
    using reachable_job [OF assms]
  proof
    assume "result s = None \<and> (status s = ''started'' \<or> status s = ''running'') \<and>
          (progress s = 0 \<or> progress s = 5 \<or> progress s = 10)"
    then show ?thesis by auto
  next
    assume "ended (status s) s"
    from ended_cases [OF this] show ?thesis by auto
  qed
  have later: "\<forall>w' s'. (step clk graph)\<^sup>*\<^sup>* w w' \<longrightarrow> search_sessions w' sid = Some s' \<longrightarrow>
        status s' \<noteq> ''error'' \<longrightarrow> progress s \<le> progress s'"
  proof (intro allI impI)
    fix w' s'
    assume star: "(step clk graph)\<^sup>*\<^sup>* w w'" and s': "search_sessions w' sid = Some s'"
      and ne: "status s' \<noteq> ''error''"
    from steps_session(1) [OF star assms] s' ne show "progress s \<le> progress s'" by simp
  qed
  from now later show ?thesis by simp
qed

theorem progress_bounded_and_ordered_witness:
  "reachable clock0 graph_answers submitted \<and>
   (step clock0 graph_answers)\<^sup>*\<^sup>* submitted (thread_steps 5 clock0 graph_answers ''s1'' submitted) \<and>
   (\<exists>s s'. search_sessions submitted ''s1'' = Some s \<and>
      search_sessions (thread_steps 5 clock0 graph_answers ''s1'' submitted) ''s1'' = Some s' \<and>
      status s' = ''running'' \<and> progress s = 0 \<and> progress s' = 10 \<and>
      progress s \<le> progress s')"
proof -
  have r: "reachable clock0 graph_answers submitted" by (rule reachable_submitted)
  have "''s1'' \<in> dom (threads submitted)" by (simp add: threads_submitted)
  then have st: "(step clock0 graph_answers)\<^sup>*\<^sup>* submitted
      (thread_steps 5 clock0 graph_answers ''s1'' submitted)"
    by (rule thread_steps_star)
  obtain s where s: "search_sessions submitted ''s1'' = Some s" and p: "progress s = 0"
    by (simp add: submitted_def start_search_def Let_def)
  obtain s' where s': "search_sessions (thread_steps 5 clock0 graph_answers ''s1'' submitted) ''s1''
      = Some s'" and p': "status s' = ''running''" "progress s' = 10"
    by (simp add: eval_nat_numeral run_eval)
  from p' have ne: "status s' \<noteq> ''error''" by simp
  from progress_bounded_and_ordered [OF r s]
  have "\<forall>w' s'. (step clock0 graph_answers)\<^sup>*\<^sup>* submitted w' \<longrightarrow>
      search_sessions w' ''s1'' = Some s' \<longrightarrow> status s' \<noteq> ''error'' \<longrightarrow> progress s \<le> progress s'"
    by simp
  with st s' ne have "progress s \<le> progress s'" by blast
  with r st s s' p p' show ?thesis by blast
qed

theorem progress_drops_on_error:
  "map_option progress
     (search_sessions (thread_steps 5 clock0 graph_fails ''s1'' submitted) ''s1'') = Some 10 \<and>
   map_option progress
     (search_sessions (thread_steps 8 clock0 graph_fails ''s1'' submitted) ''s1'') = Some 0 \<and>
   map_option status
     (search_sessions (thread_steps 8 clock0 graph_fails ''s1'' submitted) ''s1'') = Some ''error''"
  by (simp add: eval_nat_numeral run_eval graph_fails_def)

text \<open>
  C3, as the code has it. A run on a stored job classifies what the pipeline did: a
  non-empty final answer within 420 seconds gives completed, 100 and that answer; a return
  without one gives partial\_success and 90; nothing within 420 seconds gives timeout and
  75; a failure within 420 seconds that is an \<^verbatim>\<open>Exception\<close> and not a
  \<^verbatim>\<open>TimeoutError\<close> gives error, 0 and a message that carries the failure's text; a
  failure that is no \<^verbatim>\<open>Exception\<close> leaves the function and the job stays running at 10.
\<close>

theorem run_classifies_outcome:
  assumes "search_sessions w sid = Some s"
  shows "\<exists>x w' s'. run_research_with_tracking clk graph q sid w = (x, w') \<and>
     search_sessions w' sid = Some s' \<and>
     (\<forall>d st a. graph (initial_state q) = Finishes d (Some st) \<and> d \<le> 420 \<and>
         final_answer st = Some a \<and> a \<noteq> [] \<longrightarrow>
         x = None \<and> status s' = ''completed'' \<and> progress s' = 100 \<and> result s' = Some a) \<and>
     (\<forall>d fs. graph (initial_state q) = Finishes d fs \<and> d \<le> 420 \<and>
         (fs = None \<or> (\<exists>st. fs = Some st \<and>
            (final_answer st = None \<or> final_answer st = Some []))) \<longrightarrow>
         x = None \<and> status s' = ''partial_success'' \<and> progress s' = 90 \<and>
         message s' = ''Research completed but with some issues'' \<and>
         result s' = Some partial_text) \<and>
     (graph (initial_state q) = Hangs \<or>
      (\<exists>d fs. 420 < d \<and> graph (initial_state q) = Finishes d fs) \<or>
      (\<exists>d c m. 420 < d \<and> graph (initial_state q) = Fails d c m) \<longrightarrow>
         x = None \<and> status s' = ''timeout'' \<and> progress s' = 75 \<and>
         message s' = ''Research timed out after 7 minutes'' \<and>
         result s' = Some timeout_text) \<and>
     (\<forall>d m. graph (initial_state q) = Fails d Is_Exception m \<and> d \<le> 420 \<longrightarrow>
         x = None \<and> status s' = ''error'' \<and> progress s' = 0 \<and>
         message s' = ''Error occurred: '' @ m \<and> result s' = Some (error_prefix @ m)) \<and>
     (\<forall>d m. graph (initial_state q) = Fails d Is_BaseException m \<and> d \<le> 420 \<longrightarrow>
         x = Some (PipelineError Is_BaseException m) \<and> status s' = ''running'' \<and>
         progress s' = 10 \<and> result s' = result s)"
proof -
  from run_outcome [OF assms, of clk graph q]
  obtain x w' s' where run: "run_research_with_tracking clk graph q sid w = (x, w')"
    and s': "search_sessions w' sid = Some s'"
    and out: "case future_result 420 (graph (initial_state q)) of
        Returned final_state \<Rightarrow>
          (case answered final_state of
             Some a \<Rightarrow>
               x = None \<and> status s' = ''completed'' \<and> progress s' = 100 \<and>
               current_step s' = ''completed'' \<and>
               message s' = ''Research completed successfully!'' \<and> result s' = Some a
           | None \<Rightarrow>
               x = None \<and> status s' = ''partial_success'' \<and> progress s' = 90 \<and>
               current_step s' = ''completed_with_issues'' \<and>
               message s' = ''Research completed but with some issues'' \<and>
               result s' = Some partial_text)
      | Raised e \<Rightarrow>
          if is_TimeoutError e then
            x = None \<and> status s' = ''timeout'' \<and> progress s' = 75 \<and>
            current_step s' = ''timeout'' \<and>
            message s' = ''Research timed out after 7 minutes'' \<and>
            result s' = Some timeout_text
          else if is_Exception e then
            x = None \<and> status s' = ''error'' \<and> progress s' = 0 \<and>
            current_step s' = ''error'' \<and>
            message s' = ''Error occurred: '' @ str e \<and>
            result s' = Some (error_prefix @ str e)
          else
            x = Some e \<and> status s' = ''running'' \<and> progress s' = 10 \<and>
            result s' = result s"
    by blast
  have a: "\<forall>d st a. graph (initial_state q) = Finishes d (Some st) \<and> d \<le> 420 \<and>
         final_answer st = Some a \<and> a \<noteq> [] \<longrightarrow>
         x = None \<and> status s' = ''completed'' \<and> progress s' = 100 \<and> result s' = Some a"
    using out by (auto simp: future_result_def answered_def)
  have b: "\<forall>d fs. graph (initial_state q) = Finishes d fs \<and> d \<le> 420 \<and>
         (fs = None \<or> (\<exists>st. fs = Some st \<and>
            (final_answer st = None \<or> final_answer st = Some []))) \<longrightarrow>
         x = None \<and> status s' = ''partial_success'' \<and> progress s' = 90 \<and>
         message s' = ''Research completed but with some issues'' \<and>
         result s' = Some partial_text"
    using out by (auto simp: future_result_def answered_def)
  have c: "graph (initial_state q) = Hangs \<or>
      (\<exists>d fs. 420 < d \<and> graph (initial_state q) = Finishes d fs) \<or>
      (\<exists>d c m. 420 < d \<and> graph (initial_state q) = Fails d c m) \<longrightarrow>
         x = None \<and> status s' = ''timeout'' \<and> progress s' = 75 \<and>
         message s' = ''Research timed out after 7 minutes'' \<and>
         result s' = Some timeout_text"
    using out by (auto simp: future_result_def)
  have d: "\<forall>d m. graph (initial_state q) = Fails d Is_Exception m \<and> d \<le> 420 \<longrightarrow>
         x = None \<and> status s' = ''error'' \<and> progress s' = 0 \<and>
         message s' = ''Error occurred: '' @ m \<and> result s' = Some (error_prefix @ m)"
    using out by (auto simp: future_result_def)
  have e: "\<forall>d m. graph (initial_state q) = Fails d Is_BaseException m \<and> d \<le> 420 \<longrightarrow>
         x = Some (PipelineError Is_BaseException m) \<and> status s' = ''running'' \<and>
         progress s' = 10 \<and> result s' = result s"
    using out by (auto simp: future_result_def)
  from run s' a b c d e show ?thesis by blast
qed

theorem run_classifies_outcome_witness:
  "search_sessions submitted ''s1'' \<noteq> None \<and>
   (\<exists>w' s'. run_research_with_tracking clock0 graph_answers ''q'' ''s1'' submitted = (None, w') \<and>
      search_sessions w' ''s1'' = Some s' \<and>
      status s' = ''completed'' \<and> progress s' = 100 \<and> result s' = Some ''Teslas'') \<and>
   (\<exists>w' s'. run_research_with_tracking clock0 graph_fails ''q'' ''s1'' submitted = (None, w') \<and>
      search_sessions w' ''s1'' = Some s' \<and>
      status s' = ''error'' \<and> progress s' = 0 \<and> message s' = ''Error occurred: q'') \<and>
   (\<exists>w' s'. run_research_with_tracking clock0 (\<lambda>st. Hangs) ''q'' ''s1'' submitted = (None, w') \<and>
      search_sessions w' ''s1'' = Some s' \<and>
      status s' = ''timeout'' \<and> progress s' = 75) \<and>
   (\<exists>w' s'. run_research_with_tracking clock0 (\<lambda>st. Finishes 5 (Some st)) ''q'' ''s1'' submitted
        = (None, w') \<and>
      search_sessions w' ''s1'' = Some s' \<and>
      status s' = ''partial_success'' \<and> progress s' = 90) \<and>
   (\<exists>w' s'. run_research_with_tracking clock0 graph_exits ''q'' ''s1'' submitted
        = (Some (PipelineError Is_BaseException ''exit''), w') \<and>
      search_sessions w' ''s1'' = Some s' \<and>
      status s' = ''running'' \<and> progress s' = 10)"
proof -
  obtain s where s: "search_sessions submitted ''s1'' = Some s"
    by (simp add: submitted_def start_search_def Let_def)
  have g1: "graph_answers (initial_state ''q'') =
      Finishes 30 (Some ((initial_state ''q'')\<lparr>final_answer := Some ''Teslas''\<rparr>))"
    by (simp add: graph_answers_def)
  have g2: "graph_fails (initial_state ''q'') = Fails 1 Is_Exception ''q''"
    by (simp add: graph_fails_def initial_state_def)
  have g4: "final_answer (initial_state ''q'') = None" by (simp add: initial_state_def)
  have g5: "graph_exits (initial_state ''q'') = Fails 1 Is_BaseException ''exit''"
    by (simp add: graph_exits_def)
  have a: "\<exists>w' s'. run_research_with_tracking clock0 graph_answers ''q'' ''s1'' submitted = (None, w') \<and>
      search_sessions w' ''s1'' = Some s' \<and>
      status s' = ''completed'' \<and> progress s' = 100 \<and> result s' = Some ''Teslas''"
  proof -
    from run_classifies_outcome [OF s, of clock0 graph_answers "''q''"]
    obtain x w' s' where r: "run_research_with_tracking clock0 graph_answers ''q'' ''s1'' submitted
        = (x, w')" and f: "search_sessions w' ''s1'' = Some s'"
      and c: "\<forall>d st a. graph_answers (initial_state ''q'') = Finishes d (Some st) \<and> d \<le> 420 \<and>
         final_answer st = Some a \<and> a \<noteq> [] \<longrightarrow>
         x = None \<and> status s' = ''completed'' \<and> progress s' = 100 \<and> result s' = Some a"
      by (elim exE conjE) (rule that)
    from c [rule_format, of 30 "(initial_state ''q'')\<lparr>final_answer := Some ''Teslas''\<rparr>" "''Teslas''"] g1
    have "x = None \<and> status s' = ''completed'' \<and> progress s' = 100 \<and> result s' = Some ''Teslas''"
      by simp
    with r f show ?thesis by blast
  qed
  have b: "\<exists>w' s'. run_research_with_tracking clock0 graph_fails ''q'' ''s1'' submitted = (None, w') \<and>
      search_sessions w' ''s1'' = Some s' \<and>
      status s' = ''error'' \<and> progress s' = 0 \<and> message s' = ''Error occurred: q''"
  proof -
    from run_classifies_outcome [OF s, of clock0 graph_fails "''q''"]
    obtain x w' s' where r: "run_research_with_tracking clock0 graph_fails ''q'' ''s1'' submitted
        = (x, w')" and f: "search_sessions w' ''s1'' = Some s'"
      and c: "\<forall>d m. graph_fails (initial_state ''q'') = Fails d Is_Exception m \<and> d \<le> 420 \<longrightarrow>
         x = None \<and> status s' = ''error'' \<and> progress s' = 0 \<and>
         message s' = ''Error occurred: '' @ m \<and> result s' = Some (error_prefix @ m)"
      by (elim exE conjE) (rule that)
    from c [rule_format, of 1 "''q''"] g2
    have "x = None \<and> status s' = ''error'' \<and> progress s' = 0 \<and> message s' = ''Error occurred: q''"
      by simp
    with r f show ?thesis by blast
  qed
  have c: "\<exists>w' s'. run_research_with_tracking clock0 (\<lambda>st. Hangs) ''q'' ''s1'' submitted = (None, w') \<and>
      search_sessions w' ''s1'' = Some s' \<and>
      status s' = ''timeout'' \<and> progress s' = 75"
  proof -
    from run_classifies_outcome [OF s, of clock0 "\<lambda>st. Hangs" "''q''"]
    obtain x w' s' where r: "run_research_with_tracking clock0 (\<lambda>st. Hangs) ''q'' ''s1'' submitted
        = (x, w')" and f: "search_sessions w' ''s1'' = Some s'"
      and c: "Hangs = Hangs \<or> (\<exists>d fs. 420 < d \<and> Hangs = Finishes d fs) \<or>
         (\<exists>d c m. 420 < d \<and> Hangs = Fails d c m) \<longrightarrow>
         x = None \<and> status s' = ''timeout'' \<and> progress s' = 75 \<and>
         message s' = ''Research timed out after 7 minutes'' \<and>
         result s' = Some timeout_text"
      by (elim exE conjE) (rule that)
    from c have "x = None \<and> status s' = ''timeout'' \<and> progress s' = 75" by simp
    with r f show ?thesis by blast
  qed
  have d: "\<exists>w' s'. run_research_with_tracking clock0 (\<lambda>st. Finishes 5 (Some st)) ''q'' ''s1'' submitted
        = (None, w') \<and>
      search_sessions w' ''s1'' = Some s' \<and>
      status s' = ''partial_success'' \<and> progress s' = 90"
  proof -
    from run_classifies_outcome [OF s, of clock0 "\<lambda>st. Finishes 5 (Some st)" "''q''"]
    obtain x w' s' where r: "run_research_with_tracking clock0 (\<lambda>st. Finishes 5 (Some st)) ''q''
        ''s1'' submitted = (x, w')" and f: "search_sessions w' ''s1'' = Some s'"
      and c: "\<forall>d fs. Finishes 5 (Some (initial_state ''q'')) = Finishes d fs \<and> d \<le> 420 \<and>
         (fs = None \<or> (\<exists>st. fs = Some st \<and>
            (final_answer st = None \<or> final_answer st = Some []))) \<longrightarrow>
         x = None \<and> status s' = ''partial_success'' \<and> progress s' = 90 \<and>
         message s' = ''Research completed but with some issues'' \<and>
         result s' = Some partial_text"
      by (elim exE conjE) (rule that)
    from c [rule_format, of 5 "Some (initial_state ''q'')"] g4
    have "x = None \<and> status s' = ''partial_success'' \<and> progress s' = 90" by simp
    with r f show ?thesis by blast
  qed
  have e: "\<exists>w' s'. run_research_with_tracking clock0 graph_exits ''q'' ''s1'' submitted
        = (Some (PipelineError Is_BaseException ''exit''), w') \<and>
      search_sessions w' ''s1'' = Some s' \<and>
      status s' = ''running'' \<and> progress s' = 10"
  proof -
    from run_classifies_outcome [OF s, of clock0 graph_exits "''q''"]
    obtain x w' s' where r: "run_research_with_tracking clock0 graph_exits ''q'' ''s1'' submitted
        = (x, w')" and f: "search_sessions w' ''s1'' = Some s'"
      and c: "\<forall>d m. graph_exits (initial_state ''q'') = Fails d Is_BaseException m \<and> d \<le> 420 \<longrightarrow>
         x = Some (PipelineError Is_BaseException m) \<and> status s' = ''running'' \<and>
         progress s' = 10 \<and> result s' = result s"
      by (elim exE conjE) (rule that)
    from c [rule_format, of 1 "''exit''"] g5
    have "x = Some (PipelineError Is_BaseException ''exit'') \<and> status s' = ''running'' \<and>
      progress s' = 10" by simp
    with r f show ?thesis by blast
  qed
  from s a b c d e show ?thesis by simp
qed

theorem failure_not_always_error:
  "fst (run_research_with_tracking clock0 graph_exits ''q'' ''s1'' submitted) =
     Some (PipelineError Is_BaseException ''exit'') \<and>
   map_option status
     (search_sessions (snd (run_research_with_tracking clock0 graph_exits ''q'' ''s1'' submitted))
        ''s1'') = Some ''running'' \<and>
   map_option progress
     (search_sessions (snd (run_research_with_tracking clock0 graph_exits ''q'' ''s1'' submitted))
        ''s1'') = Some 10 \<and>
   map_option result
     (search_sessions (snd (run_research_with_tracking clock0 graph_exits ''q'' ''s1'' submitted))
        ''s1'') = Some None \<and>
   graph_read_timeout (initial_state ''q'') = Fails 1 Is_TimeoutError ''read timed out'' \<and>
   map_option status
     (search_sessions
        (snd (run_research_with_tracking clock0 graph_read_timeout ''q'' ''s1'' submitted))
        ''s1'') = Some ''timeout'' \<and>
   map_option progress
     (search_sessions
        (snd (run_research_with_tracking clock0 graph_read_timeout ''q'' ''s1'' submitted))
        ''s1'') = Some 75 \<and>
   map_option message
     (search_sessions
        (snd (run_research_with_tracking clock0 graph_read_timeout ''q'' ''s1'' submitted))
        ''s1'') = Some ''Research timed out after 7 minutes''"
proof -
  obtain s where s: "search_sessions submitted ''s1'' = Some s" and n: "result s = None"
    by (simp add: submitted_def start_search_def Let_def)
  have o1: "future_result 420 (graph_exits (initial_state ''q'')) =
      Raised (PipelineError Is_BaseException ''exit'')"
    by (simp add: future_result_def graph_exits_def)
  have g2: "graph_read_timeout (initial_state ''q'') = Fails 1 Is_TimeoutError ''read timed out''"
    by (simp add: graph_read_timeout_def)
  then have o2: "future_result 420 (graph_read_timeout (initial_state ''q'')) =
      Raised (PipelineError Is_TimeoutError ''read timed out'')"
    by (simp add: future_result_def)
  from run_outcome [OF s, of clock0 graph_exits "''q''"] o1 n
  obtain w1 s1 where "run_research_with_tracking clock0 graph_exits ''q'' ''s1'' submitted
      = (Some (PipelineError Is_BaseException ''exit''), w1)"
    and "search_sessions w1 ''s1'' = Some s1"
    and "status s1 = ''running''" and "progress s1 = 10" and "result s1 = None"
    by auto
  moreover from run_outcome [OF s, of clock0 graph_read_timeout "''q''"] o2
  obtain x2 w2 s2 where "run_research_with_tracking clock0 graph_read_timeout ''q'' ''s1'' submitted
      = (x2, w2)"
    and "search_sessions w2 ''s1'' = Some s2"
    and "status s2 = ''timeout''" and "progress s2 = 75"
    and "message s2 = ''Research timed out after 7 minutes''"
    by auto
  ultimately show ?thesis using g2 by simp
qed

text \<open>
  C4, as the code has it. The result of a completed and of a partial\_success job is a
  non-empty string; the result of a timeout job is one fixed text; the result of an error
  job is the fixed prefix followed by the text of the failure, so it varies with the
  failure.
\<close>

theorem terminal_result_texts:
  assumes "reachable clk graph w" and "search_sessions w sid = Some s"
  shows "(status s = ''completed'' \<longrightarrow> (\<exists>a. result s = Some a \<and> a \<noteq> [])) \<and>
    (status s = ''partial_success'' \<longrightarrow> result s = Some partial_text \<and> partial_text \<noteq> []) \<and>
    (status s = ''timeout'' \<longrightarrow> result s = Some timeout_text \<and> timeout_text \<noteq> []) \<and>
    (status s = ''error'' \<longrightarrow> (\<exists>m. result s = Some (error_prefix @ m))) \<and>
    (\<forall>d m. graph (initial_state q) = Fails d Is_Exception m \<and> d \<le> 420 \<longrightarrow>
       (\<exists>w' s'. run_research_with_tracking clk graph q sid w = (None, w') \<and>
          search_sessions w' sid = Some s' \<and> status s' = ''error'' \<and>
          result s' = Some (error_prefix @ m)))"
proof -
  have texts: "partial_text \<noteq> []" "timeout_text \<noteq> []"
    by (simp_all add: partial_text_def timeout_text_def)
  have stored: "(status s = ''completed'' \<longrightarrow> (\<exists>a. result s = Some a \<and> a \<noteq> [])) \<and>
    (status s = ''partial_success'' \<longrightarrow> result s = Some partial_text) \<and>
    (status s = ''timeout'' \<longrightarrow> result s = Some timeout_text) \<and>
    (status s = ''error'' \<longrightarrow> (\<exists>m. result s = Some (error_prefix @ m)))"
    using reachable_job [OF assms]
  proof
    assume "result s = None \<and> (status s = ''started'' \<or> status s = ''running'') \<and>
          (progress s = 0 \<or> progress s = 5 \<or> progress s = 10)"
    then show ?thesis by auto
  next
    assume "ended (status s) s"
    from ended_cases [OF this] show ?thesis by auto
  qed
  have run: "\<forall>d m. graph (initial_state q) = Fails d Is_Exception m \<and> d \<le> 420 \<longrightarrow>
       (\<exists>w' s'. run_research_with_tracking clk graph q sid w = (None, w') \<and>
          search_sessions w' sid = Some s' \<and> status s' = ''error'' \<and>
          result s' = Some (error_prefix @ m))"
  proof (intro allI impI)
    fix d m
    assume f: "graph (initial_state q) = Fails d Is_Exception m \<and> d \<le> 420"
    then have "future_result 420 (graph (initial_state q)) = Raised (PipelineError Is_Exception m)"
      by (simp add: future_result_def)
    with run_outcome [OF assms(2), of clk graph q]
    show "\<exists>w' s'. run_research_with_tracking clk graph q sid w = (None, w') \<and>
          search_sessions w' sid = Some s' \<and> status s' = ''error'' \<and>
          result s' = Some (error_prefix @ m)"
      by auto
  qed
  from texts stored run show ?thesis by simp
qed

theorem terminal_result_texts_witness:
  "reachable clock0 graph_fails (thread_steps 8 clock0 graph_fails ''s1'' submitted) \<and>
   (\<exists>s. search_sessions (thread_steps 8 clock0 graph_fails ''s1'' submitted) ''s1'' = Some s \<and>
      status s = ''error'' \<and> (\<exists>m. result s = Some (error_prefix @ m))) \<and>
   reachable clock0 graph_answers (thread_steps 8 clock0 graph_answers ''s1'' submitted) \<and>
   (\<exists>s. search_sessions (thread_steps 8 clock0 graph_answers ''s1'' submitted) ''s1'' = Some s \<and>
      status s = ''completed'' \<and> (\<exists>a. result s = Some a \<and> a \<noteq> []))"
proof -
  have r1: "reachable clock0 graph_fails (thread_steps 8 clock0 graph_fails ''s1'' submitted)"
    by (rule reachable_thread_steps)
  have r2: "reachable clock0 graph_answers (thread_steps 8 clock0 graph_answers ''s1'' submitted)"
    by (rule reachable_thread_steps)
  obtain s1 where s1: "search_sessions (thread_steps 8 clock0 graph_fails ''s1'' submitted) ''s1''
      = Some s1" and e1: "status s1 = ''error''"
    by (simp add: eval_nat_numeral run_eval graph_fails_def)
  obtain s2 where s2: "search_sessions (thread_steps 8 clock0 graph_answers ''s1'' submitted) ''s1''
      = Some s2" and e2: "status s2 = ''completed''"
    by (simp add: eval_nat_numeral run_eval graph_answers_def)
  from terminal_result_texts [OF r1 s1, of "''q''"] e1
  have "\<exists>m. result s1 = Some (error_prefix @ m)" by simp
  moreover from terminal_result_texts [OF r2 s2, of "''q''"] e2
  have "\<exists>a. result s2 = Some a \<and> a \<noteq> []" by simp
  ultimately show ?thesis using r1 r2 s1 s2 e1 e2 by blast
qed

theorem error_result_varies:
  "reachable clock0 graph_fails two_jobs_failed \<and>
   map_option status (search_sessions two_jobs_failed ''s1'') = Some ''error'' \<and>
   map_option status (search_sessions two_jobs_failed ''s2'') = Some ''error'' \<and>
   map_option result (search_sessions two_jobs_failed ''s1'')
     = Some (Some ''Research failed due to an error: q'') \<and>
   map_option result (search_sessions two_jobs_failed ''s2'')
     = Some (Some ''Research failed due to an error: r'')"
proof -
  have "map_option status (search_sessions two_jobs_failed ''s1'') = Some ''error'' \<and>
   map_option status (search_sessions two_jobs_failed ''s2'') = Some ''error'' \<and>
   map_option result (search_sessions two_jobs_failed ''s1'')
     = Some (Some ''Research failed due to an error: q'') \<and>
   map_option result (search_sessions two_jobs_failed ''s2'')
     = Some (Some ''Research failed due to an error: r'')"
    by (simp add: two_jobs_failed_def eval_nat_numeral run_eval graph_fails_def error_prefix_def)
  with reachable_two_jobs_failed show ?thesis by simp
qed

text \<open>
  C5. With a supported engine, a provider that answers 200 with a JSON array makes
  \<^verbatim>\<open>serp_search\<close> raise AttributeError after its one request.
\<close>

theorem serp_search_raises_on_array:
  "serp_search env_array ''q'' ''google'' [] =
     (Inl (AttributeError (apostrophe @ ''list'' @ apostrophe @ '' object has no attribute ''
             @ apostrophe @ ''get'' @ apostrophe)),
      [\<lparr>url = ''https://api.brightdata.com/request'',
        headers = [(''Authorization'', ''Bearer key''), (''Content-Type'', ''application/json'')],
        kwargs = [(''json'', JObj [(''zone'', JStr ''ai_agent''),
                                   (''url'', JStr ''https://www.google.com/search?q=q&brd_json=1''),
                                   (''format'', JStr ''raw'')])]\<rparr>])"
  by (simp add: serp_search_def zones_to_try_def make_api_request_def env_array_def Let_def)

text \<open>
  C6, as the code has it. When the provider's answer is a JSON object that is not empty,
  the result holds that object's knowledge and organic entries, an empty dictionary and
  an empty list standing in for a missing one, whatever else the object holds. The empty
  object is false at line 57: the zone counts as failed and the search returns
  \<^verbatim>\<open>None\<close>.
\<close>

theorem serp_search_normalizes:
  assumes "engine = ''google'' \<or> engine = ''bing''"
    and "\<forall>reqs. post e reqs = Responds r"
    and "ok r" and "body_json r = Some (JObj d)"
  shows "fst (serp_search e query engine sent) =
    (if d = [] then Inr None
     else Inr (Some \<lparr>knowledge = (case map_of d ''knowledge'' of None \<Rightarrow> JObj [] | Some v \<Rightarrow> v),
                     organic = (case map_of d ''organic'' of None \<Rightarrow> JArr [] | Some v \<Rightarrow> v)\<rparr>))"
  using assms
  by (auto simp: serp_search_def zones_to_try_def make_api_request_def Let_def dict_get_def)

theorem serp_search_normalizes_witness:
  "fst (serp_search env_object ''cars'' ''bing'' []) =
     Inr (Some \<lparr>knowledge = JObj [], organic = JArr [JStr ''r1'']\<rparr>) \<and>
   fst (serp_search env_empty_object ''cars'' ''bing'' []) = Inr None"
proof -
  let ?r = "\<lparr>ok = True, status_code = 200, body_text = [],
             body_json = Some (JObj [(''organic'', JArr [JStr ''r1'']), (''general'', JObj [])])\<rparr>"
  let ?empty = "\<lparr>ok = True, status_code = 200, body_text = ''{}'', body_json = Some (JObj [])\<rparr>"
  have a: "''bing'' = ''google'' \<or> ''bing'' = ''bing''" by simp
  have b: "\<forall>reqs. post env_object reqs = Responds ?r" by (simp add: env_object_def)
  have b0: "\<forall>reqs. post env_empty_object reqs = Responds ?empty" by (simp add: env_empty_object_def)
  from serp_search_normalizes [OF a b, of "[(''organic'', JArr [JStr ''r1'']), (''general'', JObj [])]"
      "''cars''" "[]"]
    serp_search_normalizes [OF a b0, of "[]" "''cars''" "[]"]
  show ?thesis by simp
qed

theorem empty_object_is_not_normalized:
  "post env_empty_object [] =
     Responds \<lparr>ok = True, status_code = 200, body_text = ''{}'', body_json = Some (JObj [])\<rparr> \<and>
   fst (serp_search env_empty_object ''cars'' ''google'' []) = Inr None \<and>
   fst (serp_search env_empty_object ''cars'' ''google'' []) \<noteq>
     Inr (Some \<lparr>knowledge = JObj [], organic = JArr []\<rparr>) \<and>
   fst (serp_search env_array ''cars'' ''google'' []) =
     Inl (AttributeError (apostrophe @ ''list'' @ apostrophe @ '' object has no attribute ''
            @ apostrophe @ ''get'' @ apostrophe))"
  by (simp add: serp_search_def zones_to_try_def make_api_request_def env_empty_object_def
        env_array_def Let_def)

text \<open>
  C7. For an identifier that is not in the store, the status, output and delete endpoints
  each answer 404; and after a stored job is deleted the status endpoint answers 404 for it.
\<close>

theorem unknown_session_not_found:
  "(search_sessions w sid = None \<longrightarrow>
      get_search_status sid w = Inl (HTTPException 404 ''Session not found'') \<and>
      get_output_log sid w = Inl (HTTPException 404 ''Session not found'') \<and>
      delete_session sid w = (Inl (HTTPException 404 ''Session not found''), w)) \<and>
   (search_sessions w sid \<noteq> None \<longrightarrow>
      fst (delete_session sid w) = Inr ''Session deleted successfully'' \<and>
      search_sessions (snd (delete_session sid w)) = (search_sessions w)(sid := None) \<and>
      get_search_status sid (snd (delete_session sid w)) =
        Inl (HTTPException 404 ''Session not found''))"
  by (auto simp: get_search_status_def get_output_log_def delete_session_def)

theorem unknown_session_not_found_witness:
  "search_sessions initial_world ''nobody'' = None \<and>
   get_search_status ''nobody'' initial_world = Inl (HTTPException 404 ''Session not found'') \<and>
   get_output_log ''nobody'' initial_world = Inl (HTTPException 404 ''Session not found'') \<and>
   delete_session ''nobody'' initial_world =
     (Inl (HTTPException 404 ''Session not found''), initial_world) \<and>
   search_sessions submitted ''s1'' \<noteq> None \<and>
   fst (delete_session ''s1'' submitted) = Inr ''Session deleted successfully'' \<and>
   get_search_status ''s1'' (snd (delete_session ''s1'' submitted)) =
     Inl (HTTPException 404 ''Session not found'')"
proof -
  have a: "search_sessions initial_world ''nobody'' = None" by (simp add: initial_world_def)
  have b: "search_sessions submitted ''s1'' \<noteq> None"
    by (simp add: submitted_def start_search_def Let_def)
  from unknown_session_not_found [of initial_world "''nobody''"]
    unknown_session_not_found [of submitted "''s1''"] a b
  show ?thesis by simp
qed



text \<open>
  C9. \<^verbatim>\<open>log_to_session\<close> appends one line, the time in brackets and the message, to the
  log of a stored job; and the log a job has in a world is a prefix of the log it has in
  every later world, so its length never decreases.
\<close>

theorem output_log_append_only:
  assumes "reachable clk graph w" and "(step clk graph)\<^sup>*\<^sup>* w w'"
    and "search_sessions w sid = Some s" and "search_sessions w' sid = Some s'"
  shows "prefix (output_log s) (output_log s') \<and>
    length (output_log s) \<le> length (output_log s') \<and>
    search_sessions (log_to_session clk sid msg w) sid =
      Some (s\<lparr>output_log := output_log s @ ''['' @ hms (clk (ticks w)) @ ''] '' @ msg @ [CHR 0x0A]\<rparr>)"
proof -
  from steps_session(1) [OF assms(2) assms(1) assms(3)] assms(4)
  have p: "prefix (output_log s) (output_log s')" by simp
  then have "length (output_log s) \<le> length (output_log s')" by (rule prefix_length_le)
  with p log_present [OF assms(3)] show ?thesis by simp
qed

theorem output_log_append_only_witness:
  "reachable clock0 graph_answers (thread_steps 2 clock0 graph_answers ''s1'' submitted) \<and>
   (step clock0 graph_answers)\<^sup>*\<^sup>* (thread_steps 2 clock0 graph_answers ''s1'' submitted)
      (thread_steps 5 clock0 graph_answers ''s1'' submitted) \<and>
   (\<exists>s s'. search_sessions (thread_steps 2 clock0 graph_answers ''s1'' submitted) ''s1'' = Some s \<and>
      search_sessions (thread_steps 5 clock0 graph_answers ''s1'' submitted) ''s1'' = Some s' \<and>
      output_log s = ''[12:00:00] initializing: Starting research process...'' @ [CHR 0x0A] \<and>
      prefix (output_log s) (output_log s') \<and>
      length (output_log s) \<le> length (output_log s'))"
proof -
  have r: "reachable clock0 graph_answers (thread_steps 2 clock0 graph_answers ''s1'' submitted)"
    by (rule reachable_thread_steps)
  have "''s1'' \<in> dom (threads (thread_steps 2 clock0 graph_answers ''s1'' submitted))"
    by (simp add: thread_steps_dom threads_submitted)
  then have "(step clock0 graph_answers)\<^sup>*\<^sup>* (thread_steps 2 clock0 graph_answers ''s1'' submitted)
      (thread_steps 3 clock0 graph_answers ''s1''
         (thread_steps 2 clock0 graph_answers ''s1'' submitted))"
    by (rule thread_steps_star)
  moreover have "thread_steps 3 clock0 graph_answers ''s1''
         (thread_steps 2 clock0 graph_answers ''s1'' submitted) =
       thread_steps 5 clock0 graph_answers ''s1'' submitted"
    by (simp add: eval_nat_numeral)
  ultimately have st: "(step clock0 graph_answers)\<^sup>*\<^sup>*
      (thread_steps 2 clock0 graph_answers ''s1'' submitted)
      (thread_steps 5 clock0 graph_answers ''s1'' submitted)"
    by simp
  obtain s where s: "search_sessions (thread_steps 2 clock0 graph_answers ''s1'' submitted) ''s1''
      = Some s"
    and l: "output_log s = ''[12:00:00] initializing: Starting research process...'' @ [CHR 0x0A]"
    by (simp add: eval_nat_numeral run_eval clock0_def)
  obtain s' where s': "search_sessions (thread_steps 5 clock0 graph_answers ''s1'' submitted) ''s1''
      = Some s'"
    by (simp add: eval_nat_numeral run_eval)
  from output_log_append_only [OF r st s s'] r st s s' l show ?thesis by blast
qed

text \<open>
  C10. An engine other than google and bing makes \<^verbatim>\<open>serp_search\<close> raise ValueError, and
  no request has been issued by then.
\<close>

theorem serp_search_unsupported_engine:
  assumes "engine \<noteq> ''google''" and "engine \<noteq> ''bing''"
  shows "serp_search e query engine sent =
    (Inl (ValueError (''Unsupported search engine. Use '' @ apostrophe @ ''google''
            @ apostrophe @ '' or '' @ apostrophe @ ''bing'' @ apostrophe @ ''.'')), sent)"
  using assms by (simp add: serp_search_def)

theorem serp_search_unsupported_engine_witness:
  "''yahoo'' \<noteq> ''google'' \<and> ''yahoo'' \<noteq> ''bing'' \<and>
   serp_search env_object ''cars'' ''yahoo'' [] =
    (Inl (ValueError (''Unsupported search engine. Use '' @ apostrophe @ ''google''
            @ apostrophe @ '' or '' @ apostrophe @ ''bing'' @ apostrophe @ ''.'')), [])"
proof -
  have a: "''yahoo'' \<noteq> ''google''" and b: "''yahoo'' \<noteq> ''bing''" by simp_all
  from serp_search_unsupported_engine [OF a b, of env_object "''cars''" "[]"] a b
  show ?thesis by simp
qed

end
